theory Spec2Isabelle
  imports Main "HOL-Library.AList" "HOL-Library.List_Lexorder" "HOL-Library.Char_ord"
    "HOL-Library.Multiset" "HOL-Library.Word"
begin

section \<open>JavaScript values as App.js uses them\<close>

text \<open>
  The store of App.js is whatever \<^verbatim>\<open>JSON.parse\<close> returned, patched by object spreads, so
  the model works on JavaScript values rather than on a typed record.

  \<^item> A number is an integer from \<open>- 2^53\<close> to \<open>2^53 - 1\<close>, held in a signed word of 54
    bits: these are the numbers that \<^verbatim>\<open>String\<close> prints digit by digit. The type has no other
    number (no fraction, no larger number, no NaN).
  \<^item> A string is a list of code units below 256, compared code unit by code unit as
    JavaScript's \<^verbatim>\<open><\<close> does.
  \<^item> An object is the list of its own enumerable properties; lookups take the first entry of
    a key and updates keep a key's position, so on lists with distinct keys the list behaves
    as the object does. JavaScript enumerates array-index-like keys first; the model keeps
    insertion order throughout, and no statement below depends on that order. The values of
    this type are plain data, as \<^verbatim>\<open>JSON.parse\<close>, object literals and spreads make them: their
    prototype is \<^verbatim>\<open>Object.prototype\<close> (\<^verbatim>\<open>Array.prototype\<close> for an array) and no property of
    theirs is a function. The one object of App.js whose prototype can differ is the result
    of \<^verbatim>\<open>pruneHistory\<close>, which has a type of its own below.
  \<^item> An array carries its elements and, separately, named properties set on it
    (\<^verbatim>\<open>loadStore\<close> assigns \<^verbatim>\<open>version\<close>, \<^verbatim>\<open>templates\<close> and \<^verbatim>\<open>days\<close> to a parsed blob that
    is an array).
\<close>

datatype error = TypeError

datatype jsval =
    Undefined
  | Null
  | Bool bool
  | Num "54 word"
  | Str string
  | Arr "jsval list" "(string \<times> jsval) list"
  | Obj "(string \<times> jsval) list"

text \<open>Truthiness, as \<^verbatim>\<open>!x\<close>, \<^verbatim>\<open>x || y\<close> and \<^verbatim>\<open>x && y\<close> test it.\<close>

fun truthy :: "jsval \<Rightarrow> bool" where
  "truthy Undefined = False"
| "truthy Null = False"
| "truthy (Bool b) = b"
| "truthy (Num n) = (n \<noteq> 0)"
| "truthy (Str s) = (s \<noteq> [])"
| "truthy (Arr xs ps) = True"
| "truthy (Obj kvs) = True"

definition js_or :: "jsval \<Rightarrow> jsval \<Rightarrow> jsval" where
  "js_or a b = (if truthy a then a else b)"

fun typeof :: "jsval \<Rightarrow> string" where
  "typeof Undefined = ''undefined''"
| "typeof Null = ''object''"
| "typeof (Bool b) = ''boolean''"
| "typeof (Num n) = ''number''"
| "typeof (Str s) = ''string''"
| "typeof (Arr xs ps) = ''object''"
| "typeof (Obj kvs) = ''object''"

fun Array_isArray :: "jsval \<Rightarrow> bool" where
  "Array_isArray (Arr xs ps) = True"
| "Array_isArray v = False"

text \<open>Number to string in a radix, as \<^verbatim>\<open>String(n)\<close> (radix 10) and \<^verbatim>\<open>n.toString(36)\<close> do.\<close>

definition digit_char :: "nat \<Rightarrow> char" where
  "digit_char d = ''0123456789abcdefghijklmnopqrstuvwxyz'' ! (d mod 36)"

function nat_to_radix :: "nat \<Rightarrow> nat \<Rightarrow> string" where
  "nat_to_radix b n =
     (if b < 2 \<or> n < b then [digit_char n] else nat_to_radix b (n div b) @ [digit_char (n mod b)])"
  by pat_completeness auto
termination
  by (relation "measure (\<lambda>(b, n). n)") auto

declare nat_to_radix.simps [simp del]

definition int_to_radix :: "nat \<Rightarrow> int \<Rightarrow> string" where
  "int_to_radix b n = (if n < 0 then CHR ''-'' # nat_to_radix b (nat (- n)) else nat_to_radix b (nat n))"

fun join_comma :: "string list \<Rightarrow> string" where
  "join_comma [] = []"
| "join_comma [s] = s"
| "join_comma (s # t # ss) = s @ CHR '','' # join_comma (t # ss)"

text \<open>The results of a list of conversions made from left to right: the first one that
  throws ends them.\<close>

fun collect :: "(error + 'a) list \<Rightarrow> error + 'a list" where
  "collect [] = Inr []"
| "collect (r # rs) =
     (case r of
        Inl e \<Rightarrow> Inl e
      | Inr x \<Rightarrow> (case collect rs of Inl e \<Rightarrow> Inl e | Inr xs \<Rightarrow> Inr (x # xs)))"

text \<open>
  \<^verbatim>\<open>String(v)\<close>. For an object it calls the \<^verbatim>\<open>toString\<close> the object has: an own property
  of that name is plain data and cannot be called, and then \<^verbatim>\<open>valueOf\<close> gives no primitive
  either, so the conversion throws a TypeError; otherwise \<^verbatim>\<open>Object.prototype.toString\<close>
  answers. An array joins its elements with commas, null and undefined elements printing
  as the empty string and the others converted in turn; an own \<^verbatim>\<open>join\<close> that cannot be
  called makes \<^verbatim>\<open>Array.prototype.toString\<close> fall back to \<^verbatim>\<open>[object Array]\<close>.
\<close>

fun js_String :: "jsval \<Rightarrow> error + string" where
  "js_String Undefined = Inr ''undefined''"
| "js_String Null = Inr ''null''"
| "js_String (Bool b) = Inr (if b then ''true'' else ''false'')"
| "js_String (Num n) = Inr (int_to_radix 10 (sint n))"
| "js_String (Str s) = Inr s"
| "js_String (Arr xs ps) =
     (if ''toString'' \<in> set (map fst ps) then Inl TypeError
      else if ''join'' \<in> set (map fst ps) then Inr ''[object Array]''
      else
        case collect (map (\<lambda>x. if x = Undefined \<or> x = Null then Inr [] else js_String x) xs) of
          Inl e \<Rightarrow> Inl e
        | Inr ss \<Rightarrow> Inr (join_comma ss))"
| "js_String (Obj kvs) =
     (if ''toString'' \<in> set (map fst kvs) then Inl TypeError else Inr ''[object Object]'')"

text \<open>\<^verbatim>\<open>s.trim()\<close>: the white space and line terminators among the code units below 256.\<close>

definition is_space :: "char \<Rightarrow> bool" where
  "is_space c = (of_char c \<in> {9, 10, 11, 12, 13, 32, 160 :: nat})"

definition js_trim :: "string \<Rightarrow> string" where
  "js_trim s = rev (dropWhile is_space (rev (dropWhile is_space s)))"

text \<open>Own enumerable properties: what \<^verbatim>\<open>Object.keys\<close> lists and \<^verbatim>\<open>{...v}\<close> copies.\<close>

definition index_keys :: "nat \<Rightarrow> string list" where
  "index_keys n = map (\<lambda>i. nat_to_radix 10 i) [0..<n]"

fun own_props :: "jsval \<Rightarrow> (string \<times> jsval) list" where
  "own_props (Obj kvs) = kvs"
| "own_props (Arr xs ps) = zip (index_keys (length xs)) xs @ ps"
| "own_props (Str s) = zip (index_keys (length s)) (map (\<lambda>c. Str [c]) s)"
| "own_props v = []"

definition Object_keys :: "jsval \<Rightarrow> string list" where
  "Object_keys v = map fst (own_props v)"

text \<open>
  Property read \<^verbatim>\<open>v[k]\<close> and \<^verbatim>\<open>v?.[k]\<close>. App.js reads properties of a possibly nullish
  value only through \<^verbatim>\<open>?.\<close>, so the read of a nullish value is \<^verbatim>\<open>undefined\<close> here. A read
  finds an own property first. The properties inherited from \<^verbatim>\<open>Object.prototype\<close> and
  \<^verbatim>\<open>Array.prototype\<close> (methods, \<^verbatim>\<open>constructor\<close>, the accessor \<^verbatim>\<open>__proto__\<close>) are not values of
  the model: App.js reads with the fixed names of its fields, with the keys that
  \<^verbatim>\<open>todayKey()\<close> returns, which are digits and dashes, and with own keys.
\<close>

definition js_get :: "jsval \<Rightarrow> string \<Rightarrow> jsval" where
  "js_get v k =
     (case map_of (own_props v) k of
        Some x \<Rightarrow> x
      | None \<Rightarrow>
          (case v of
             Arr xs ps \<Rightarrow> if k = ''length'' then Num (of_nat (length xs)) else Undefined
           | Str s \<Rightarrow> if k = ''length'' then Num (of_nat (length s)) else Undefined
           | _ \<Rightarrow> Undefined))"

text \<open>\<^verbatim>\<open>{...v, k: x}\<close> and \<^verbatim>\<open>{...v, [k]: x}\<close>: copy the own properties, then define \<open>k\<close>.
  A property defined in an object literal under a computed or a fixed plain name is an own
  property whatever the name.\<close>

definition spread_with :: "jsval \<Rightarrow> string \<Rightarrow> jsval \<Rightarrow> jsval" where
  "spread_with v k x = Obj (AList.update k x (own_props v))"

text \<open>\<^verbatim>\<open>xs.slice(0, e)\<close>: a negative end counts from the end of the array.\<close>

definition slice0 :: "int \<Rightarrow> 'a list \<Rightarrow> 'a list" where
  "slice0 e xs =
     (let len = int (length xs);
          fin = (if e < 0 then max (len + e) 0 else min e len)
      in take (nat fin) xs)"

text \<open>\<^verbatim>\<open>xs.sort(cmp)\<close>. The engines' sorts are stable and never compare an element with
  itself; insertion by the comparator stands for them: \<open>x\<close> goes before \<open>y\<close> when
  \<open>cmp x y \<le> 0\<close>.\<close>

fun place_by :: "('a \<Rightarrow> 'a \<Rightarrow> int) \<Rightarrow> 'a \<Rightarrow> 'a list \<Rightarrow> 'a list" where
  "place_by cmp x [] = [x]"
| "place_by cmp x (y # ys) = (if cmp x y \<le> 0 then x # y # ys else y # place_by cmp x ys)"

definition js_sort :: "('a \<Rightarrow> 'a \<Rightarrow> int) \<Rightarrow> 'a list \<Rightarrow> 'a list" where
  "js_sort cmp xs = foldr (place_by cmp) xs []"

section \<open>History pruning\<close>

text \<open>
  \<^verbatim>\<open>
  function pruneHistory(daysObj, keep = 7) {
    const keys = Object.keys(daysObj || {}).sort((a, b) => (a < b ? 1 : -1));
    const kept = {};
    for (const k of keys.slice(0, keep)) kept[k] = daysObj[k];
    return kept;
  }
  \<close>
  \<open>kept\<close> starts as an empty object and is filled by assignments. The assignment
  \<^verbatim>\<open>kept[k] = v\<close> creates or updates an own property, except for the key \<^verbatim>\<open>__proto__\<close>, which
  \<^verbatim>\<open>Object.prototype\<close> answers with a setter: that makes \<open>v\<close> the prototype of \<open>kept\<close> when
  \<open>v\<close> is an object or null, does nothing otherwise, and creates no property in either
  case. \<^verbatim>\<open>JSON.parse\<close> and spreads do create own properties of that name, so \<open>daysObj\<close> can
  hold one. The keys of an object are distinct, so the key is assigned at most once, to an
  object whose prototype is still \<^verbatim>\<open>Object.prototype\<close>.

  The result is therefore an \<open>object\<close>: the prototype, when one was set, and the own
  properties.
\<close>

datatype object = Object (prototype: "jsval option") (own: "(string \<times> jsval) list")

definition set_prop :: "object \<Rightarrow> string \<Rightarrow> jsval \<Rightarrow> object" where
  "set_prop obj k v =
     (if k = ''__proto__''
      then (if typeof v = ''object'' then Object (Some v) (own obj) else obj)
      else Object (prototype obj) (AList.update k v (own obj)))"

definition newest_first :: "string \<Rightarrow> string \<Rightarrow> int" where
  "newest_first a b = (if a < b then 1 else - 1)"

definition pruneHistory :: "jsval \<Rightarrow> int \<Rightarrow> object" where
  "pruneHistory daysObj keep =
     (let keys = js_sort newest_first (Object_keys (js_or daysObj (Obj [])))
      in foldl (\<lambda>kept k. set_prop kept k (js_get daysObj k)) (Object None []) (slice0 keep keys))"

text \<open>An object as spreads, \<^verbatim>\<open>Object.keys\<close> and \<^verbatim>\<open>JSON.stringify\<close> see it: its own
  properties.\<close>

definition as_value :: "object \<Rightarrow> jsval" where
  "as_value obj = Obj (own obj)"

section \<open>Clock, random numbers and storage writes\<close>

text \<open>
  \<^verbatim>\<open>Date.now()\<close>, \<^verbatim>\<open>Math.random()\<close> and the outcome of \<^verbatim>\<open>localStorage.setItem\<close> come from
  outside the program. The world holds what each successive call returns and how many calls
  were made: \<open>clock w n\<close> is the \<open>n\<close>-th reading of the clock, \<open>random w n\<close> is
  \<^verbatim>\<open>Math.random().toString(36).slice(2, 9)\<close> of the \<open>n\<close>-th draw, and \<open>quota_ok w n\<close> says
  whether the \<open>n\<close>-th write to storage succeeds.
\<close>

record world =
  clock :: "nat \<Rightarrow> 54 word"
  ticks :: nat
  random :: "nat \<Rightarrow> string"
  draws :: nat
  quota_ok :: "nat \<Rightarrow> bool"
  writes :: nat

definition Date_now :: "world \<Rightarrow> 54 word \<times> world" where
  "Date_now w = (clock w (ticks w), w\<lparr>ticks := Suc (ticks w)\<rparr>)"

definition Math_random36 :: "world \<Rightarrow> string \<times> world" where
  "Math_random36 w = (random w (draws w), w\<lparr>draws := Suc (draws w)\<rparr>)"

text \<open>
  \<^verbatim>\<open>
  function uid() {
    return `${Date.now().toString(36)}-${Math.random().toString(36).slice(2, 9)}`;
  }
  \<close>
\<close>

definition uid :: "world \<Rightarrow> string \<times> world" where
  "uid w =
     (let (t, w1) = Date_now w;
          (r, w2) = Math_random36 w1
      in (int_to_radix 36 (sint t) @ ''-'' @ r, w2))"

text \<open>
  \<^verbatim>\<open>
  function todayKey() {
    const d = new Date();
    const y = d.getFullYear();
    const m = String(d.getMonth() + 1).padStart(2, '0');
    const day = String(d.getDate()).padStart(2, '0');
    return `${y}-${m}-${day}`;
  }
  \<close>
  The local calendar date that \<^verbatim>\<open>new Date()\<close> gives is an argument: the year, the month
  counted from 0 and the day of the month.
\<close>

record local_date =
  getFullYear :: "54 word"
  getMonth :: "54 word"
  getDate :: "54 word"

definition padStart2 :: "string \<Rightarrow> string" where
  "padStart2 s = replicate (2 - length s) CHR ''0'' @ s"

definition todayKey :: "local_date \<Rightarrow> string" where
  "todayKey d =
     int_to_radix 10 (sint (getFullYear d)) @ ''-''
       @ padStart2 (int_to_radix 10 (sint (getMonth d) + 1)) @ ''-''
       @ padStart2 (int_to_radix 10 (sint (getDate d)))"

section \<open>Store codec\<close>

definition BUCKETS :: "string list" where
  "BUCKETS = [''morning'', ''noon'', ''evening'']"

definition empty_templates :: jsval where
  "empty_templates = Obj [(''morning'', Arr [] []), (''noon'', Arr [] []), (''evening'', Arr [] [])]"

definition default_templates :: jsval where
  "default_templates = Obj
     [(''morning'', Arr [Str ''Water'', Str ''Stretch'', Str ''Plan day''] []),
      (''noon'', Arr [Str ''Lunch'', Str ''5-min walk''] []),
      (''evening'', Arr [Str ''Review day'', Str ''Read 10 min''] [])]"

definition fresh_store :: jsval where
  "fresh_store = Obj [(''version'', Num 2), (''templates'', default_templates), (''days'', Obj [])]"

definition fallback_store :: jsval where
  "fallback_store = Obj [(''version'', Num 2), (''templates'', empty_templates), (''days'', Obj [])]"

text \<open>\<^verbatim>\<open>JSON.parse\<close> belongs to the platform: it is a parameter, \<open>None\<close> when it throws.\<close>

definition safeJSONParse :: "(string \<Rightarrow> jsval option) \<Rightarrow> string \<Rightarrow> jsval" where
  "safeJSONParse JSON_parse raw = (case JSON_parse raw of Some v \<Rightarrow> v | None \<Rightarrow> Null)"

text \<open>\<^verbatim>\<open>v[k] = x\<close> for a key that is neither an index nor \<^verbatim>\<open>__proto__\<close>: App.js assigns to
  plain objects and arrays under the names \<^verbatim>\<open>version\<close>, \<^verbatim>\<open>templates\<close> and \<^verbatim>\<open>days\<close> and
  under a key that \<^verbatim>\<open>todayKey()\<close> returned; the last equation is never reached by it.\<close>

fun assign :: "jsval \<Rightarrow> string \<Rightarrow> jsval \<Rightarrow> jsval" where
  "assign (Obj kvs) k x = Obj (AList.update k x kvs)"
| "assign (Arr xs ps) k x = Arr xs (AList.update k x ps)"
| "assign v k x = v"

definition backfill :: "string \<Rightarrow> jsval \<Rightarrow> jsval \<Rightarrow> jsval" where
  "backfill k x parsed = (if \<not> truthy (js_get parsed k) then assign parsed k x else parsed)"

text \<open>
  \<^verbatim>\<open>
  function loadStore() {
    const raw = localStorage.getItem(STORAGE_KEY);
    if (!raw) { return { version: 2, templates: { morning: [...], ... }, days: {} }; }
    const parsed = safeJSONParse(raw);
    if (!parsed || typeof parsed !== 'object') return null;
    if (parsed.dateKey && Array.isArray(parsed.items)) {
      const migrated = { version: 2, templates: { morning: [], noon: [], evening: [] },
                         days: { [parsed.dateKey]: parsed.items } };
      return migrated;
    }
    if (!parsed.version) parsed.version = 2;
    if (!parsed.templates) parsed.templates = { morning: [], noon: [], evening: [] };
    if (!parsed.days) parsed.days = {};
    return parsed;
  }
  \<close>
  \<open>raw\<close> is what \<^verbatim>\<open>localStorage.getItem\<close> returned, \<open>None\<close> for \<^verbatim>\<open>null\<close>. The computed key
  \<^verbatim>\<open>[parsed.dateKey]\<close> is converted to a string, which throws where \<^verbatim>\<open>String\<close> does.
\<close>

definition loadStore :: "(string \<Rightarrow> jsval option) \<Rightarrow> string option \<Rightarrow> error + jsval" where
  "loadStore JSON_parse raw =
     (case raw of
        None \<Rightarrow> Inr fresh_store
      | Some r \<Rightarrow>
          if r = [] then Inr fresh_store
          else
            let parsed = safeJSONParse JSON_parse r in
            if \<not> truthy parsed \<or> typeof parsed \<noteq> ''object'' then Inr Null
            else if truthy (js_get parsed ''dateKey'') \<and> Array_isArray (js_get parsed ''items'')
            then
              (case js_String (js_get parsed ''dateKey'') of
                 Inl e \<Rightarrow> Inl e
               | Inr key \<Rightarrow>
                   Inr (Obj [(''version'', Num 2), (''templates'', empty_templates),
                             (''days'', Obj [(key, js_get parsed ''items'')])]))
            else Inr (backfill ''days'' (Obj [])
                        (backfill ''templates'' empty_templates (backfill ''version'' (Num 2) parsed))))"

text \<open>The initialiser of the store state: \<^verbatim>\<open>const s = loadStore(); return s || {...}\<close>.\<close>

definition initial_store :: "(string \<Rightarrow> jsval option) \<Rightarrow> string option \<Rightarrow> error + jsval" where
  "initial_store JSON_parse raw =
     (case loadStore JSON_parse raw of Inl e \<Rightarrow> Inl e | Inr s \<Rightarrow> Inr (js_or s fallback_store))"

section \<open>Template engine\<close>

definition mk_item :: "jsval \<Rightarrow> jsval \<Rightarrow> jsval \<Rightarrow> jsval \<Rightarrow> jsval \<Rightarrow> jsval \<Rightarrow> jsval" where
  "mk_item i t b d c f =
     Obj [(''id'', i), (''text'', t), (''bucket'', b), (''done'', d), (''createdAt'', c),
          (''fromTemplate'', f)]"

fun array_elems :: "jsval \<Rightarrow> jsval list" where
  "array_elems (Arr xs ps) = xs"
| "array_elems v = []"

text \<open>
  \<^verbatim>\<open>
  function makeItemsFromTemplates(templates) {
    const now = Date.now();
    const items = [];
    for (const b of BUCKETS) {
      const list = Array.isArray(templates?.[b.id]) ? templates[b.id] : [];
      for (const t of list) {
        const text = String(t || '').trim();
        if (!text) continue;
        items.push({ id: uid(), text, bucket: b.id, done: false, createdAt: now,
                     fromTemplate: true });
      }
    }
    return items;
  }
  \<close>
  The two loops carry the array \<open>items\<close> and the world; a conversion that throws ends them.
\<close>

fun template_loop ::
  "54 word \<Rightarrow> string \<Rightarrow> jsval list \<Rightarrow> jsval list \<times> world \<Rightarrow> error + jsval list \<times> world" where
  "template_loop now b [] (acc, w) = Inr (acc, w)"
| "template_loop now b (t # ts) (acc, w) =
     (case js_String (js_or t (Str [])) of
        Inl e \<Rightarrow> Inl e
      | Inr s \<Rightarrow>
          (let text = js_trim s in
           if text = [] then template_loop now b ts (acc, w)
           else
             let (i, w1) = uid w
             in template_loop now b ts
                  (acc @ [mk_item (Str i) (Str text) (Str b) (Bool False) (Num now) (Bool True)], w1)))"

fun bucket_loop ::
  "54 word \<Rightarrow> jsval \<Rightarrow> string list \<Rightarrow> jsval list \<times> world \<Rightarrow> error + jsval list \<times> world" where
  "bucket_loop now templates [] acc = Inr acc"
| "bucket_loop now templates (b # bs) acc =
     (let list = (if Array_isArray (js_get templates b) then array_elems (js_get templates b) else [])
      in case template_loop now b list acc of
           Inl e \<Rightarrow> Inl e
         | Inr acc1 \<Rightarrow> bucket_loop now templates bs acc1)"

definition makeItemsFromTemplates :: "world \<Rightarrow> jsval \<Rightarrow> error + jsval list \<times> world" where
  "makeItemsFromTemplates w templates =
     (let (now, w1) = Date_now w in bucket_loop now templates BUCKETS ([], w1))"

section \<open>Item normalizer\<close>

text \<open>
  \<^verbatim>\<open>
  function normalizeDayItems(items) {
    if (!Array.isArray(items)) return [];
    return items
      .filter((x) => x && typeof x === 'object')
      .map((x) => ({
        id: x.id || uid(),
        text: String(x.text || '').trim(),
        bucket: x.bucket || 'morning',
        done: !!x.done,
        createdAt: typeof x.createdAt === 'number' ? x.createdAt : Date.now(),
        fromTemplate: !!x.fromTemplate,
      }))
      .filter((x) => x.text);
  }
  \<close>
  \<open>normalizeItem\<close> is the callback of \<^verbatim>\<open>map\<close>, its fields evaluated in the order written;
  \<open>map_world\<close> runs it over the array from left to right, threading the world, and ends at
  the first element on which it throws.
\<close>

definition normalizeItem :: "world \<Rightarrow> jsval \<Rightarrow> error + jsval \<times> world" where
  "normalizeItem w x =
     (let (i, w1) = (if truthy (js_get x ''id'') then (js_get x ''id'', w)
                     else (let (u, w') = uid w in (Str u, w')))
      in case js_String (js_or (js_get x ''text'') (Str [])) of
           Inl e \<Rightarrow> Inl e
         | Inr s \<Rightarrow>
             (let text = Str (js_trim s);
                  bucket = js_or (js_get x ''bucket'') (Str ''morning'');
                  done = Bool (truthy (js_get x ''done''));
                  (c, w2) = (if typeof (js_get x ''createdAt'') = ''number''
                             then (js_get x ''createdAt'', w1)
                             else (let (t, w') = Date_now w1 in (Num t, w')));
                  fromTemplate = Bool (truthy (js_get x ''fromTemplate''))
              in Inr (mk_item i text bucket done c fromTemplate, w2)))"

fun map_world ::
  "(world \<Rightarrow> 'a \<Rightarrow> error + 'b \<times> world) \<Rightarrow> world \<Rightarrow> 'a list \<Rightarrow> error + 'b list \<times> world" where
  "map_world f w [] = Inr ([], w)"
| "map_world f w (x # xs) =
     (case f w x of
        Inl e \<Rightarrow> Inl e
      | Inr (y, w1) \<Rightarrow>
          (case map_world f w1 xs of
             Inl e \<Rightarrow> Inl e
           | Inr (ys, w2) \<Rightarrow> Inr (y # ys, w2)))"

definition normalizeDayItems :: "world \<Rightarrow> jsval \<Rightarrow> error + jsval list \<times> world" where
  "normalizeDayItems w items =
     (if \<not> Array_isArray items then Inr ([], w)
      else
        case map_world normalizeItem w
               (filter (\<lambda>x. truthy x \<and> typeof x = ''object'') (array_elems items)) of
          Inl e \<Rightarrow> Inl e
        | Inr (ys, w1) \<Rightarrow> Inr (filter (\<lambda>x. truthy (js_get x ''text'')) ys, w1))"

section \<open>The App component\<close>

text \<open>
  The React state of \<^verbatim>\<open>App\<close> (\<^verbatim>\<open>tab\<close>, \<^verbatim>\<open>store\<close>, \<^verbatim>\<open>dateKey\<close>, \<^verbatim>\<open>items\<close>), the world, and
  \<open>saved\<close>: the documents that \<^verbatim>\<open>saveStore\<close> has written to storage, the latest first.
  \<open>store\<close> holds the own properties of every object in it; \<open>days_proto\<close> is the prototype of
  the object \<^verbatim>\<open>store.days\<close> when \<^verbatim>\<open>pruneHistory\<close> set one, the only prototype in the program
  that can differ from the built-in ones. An updater or an effect that throws ends the
  component: the operations return the error instead of a state.
\<close>

record app =
  tab :: string
  store :: jsval
  dateKey :: string
  items :: "jsval list"
  env :: world
  saved :: "jsval list"
  days_proto :: "jsval option"

text \<open>
  \<^verbatim>\<open>
  function saveStore(store) {
    try { localStorage.setItem(STORAGE_KEY, JSON.stringify(store)); } catch { /* ignore */ }
  }
  \<close>
\<close>

definition saveStore :: "jsval \<Rightarrow> app \<Rightarrow> app" where
  "saveStore doc st =
     (let w = env st;
          ok = quota_ok w (writes w)
      in st\<lparr>env := w\<lparr>writes := Suc (writes w)\<rparr>,
             saved := (if ok then doc # saved st else saved st)\<rparr>)"

text \<open>
  The updater that seeds a day; the initial effect and the rollover poll pass the same one
  to \<^verbatim>\<open>setStore\<close>:
  \<^verbatim>\<open>
  (prev) => {
    const next = { ...prev, days: { ...(prev.days || {}) } };
    if (!next.days[tk]) next.days[tk] = makeItemsFromTemplates(next.templates);
    next.days = pruneHistory(next.days, 7);
    saveStore(next);
    return next;
  }
  \<close>
  \<open>seed_day\<close> computes \<open>next\<close> and the prototype of its days; \<open>set_store_saving\<close> is the
  assignment of the state and the call of \<^verbatim>\<open>saveStore\<close>.
\<close>

definition seed_day :: "string \<Rightarrow> world \<Rightarrow> jsval \<Rightarrow> error + jsval \<times> jsval option \<times> world" where
  "seed_day tk w prev =
     (let days0 = Obj (own_props (js_or (js_get prev ''days'') (Obj [])));
          next0 = spread_with prev ''days'' days0
      in case (if \<not> truthy (js_get days0 tk)
               then (case makeItemsFromTemplates w (js_get next0 ''templates'') of
                       Inl e \<Rightarrow> Inl e
                     | Inr (its, w') \<Rightarrow> Inr (assign days0 tk (Arr its []), w'))
               else Inr (days0, w)) of
           Inl e \<Rightarrow> Inl e
         | Inr (days1, w1) \<Rightarrow>
             (let kept = pruneHistory days1 7
              in Inr (assign next0 ''days'' (as_value kept), prototype kept, w1)))"

definition set_store_saving :: "jsval \<Rightarrow> app \<Rightarrow> app" where
  "set_store_saving next st = saveStore next (st\<lparr>store := next\<rparr>)"

text \<open>
  \<^verbatim>\<open>
  useEffect(() => {
    const tk = todayKey();
    setDateKey(tk);
    setStore((prev) => { ... });
  }, []);
  \<close>
\<close>

definition initial_effect :: "local_date \<Rightarrow> app \<Rightarrow> error + app" where
  "initial_effect d st =
     (let tk = todayKey d in
      case seed_day tk (env st) (store st) of
        Inl e \<Rightarrow> Inl e
      | Inr (next, proto, w) \<Rightarrow>
          Inr (set_store_saving next (st\<lparr>dateKey := tk, env := w, days_proto := proto\<rparr>)))"

text \<open>
  \<^verbatim>\<open>store.days?.[k]\<close>. An own property of the days answers; otherwise the read goes on to
  the prototype that \<^verbatim>\<open>pruneHistory\<close> set, if any: a property of that object, or, for the key
  \<^verbatim>\<open>__proto__\<close> that it does not have itself, the accessor it inherits, which returns the
  prototype. A built-in method or prototype that the read would find at the end of the chain
  is \<^verbatim>\<open>undefined\<close> here; \<^verbatim>\<open>normalizeDayItems\<close>, which alone receives the result, returns
  the empty list for all of them.
\<close>

definition read_day :: "app \<Rightarrow> string \<Rightarrow> jsval" where
  "read_day st k =
     (let days = js_get (store st) ''days'' in
      case map_of (own_props days) k of
        Some v \<Rightarrow> v
      | None \<Rightarrow>
          (case days_proto st of
             None \<Rightarrow> js_get days k
           | Some p \<Rightarrow>
               if k = ''__proto__'' \<and> p \<noteq> Null \<and> map_of (own_props p) k = None then p
               else js_get p k))"

text \<open>
  \<^verbatim>\<open>
  useEffect(() => { setItems(normalizeDayItems(store.days?.[dateKey])); }, [dateKey]);
  \<close>
\<close>

definition sync_effect :: "app \<Rightarrow> error + app" where
  "sync_effect st =
     (case normalizeDayItems (env st) (read_day st (dateKey st)) of
        Inl e \<Rightarrow> Inl e
      | Inr (its, w) \<Rightarrow> Inr (st\<lparr>items := its, env := w\<rparr>))"

text \<open>
  \<^verbatim>\<open>
  useEffect(() => {
    setStore((prev) => {
      const next = { ...prev, days: pruneHistory({ ...(prev.days || {}), [dateKey]: items }, 7) };
      saveStore(next);
      return next;
    });
  }, [items]);
  \<close>
  \<open>dk\<close> and \<open>its\<close> are the \<^verbatim>\<open>dateKey\<close> and \<^verbatim>\<open>items\<close> of the render whose effect this is.
  \<open>write_back\<close> computes \<open>next\<close> and the prototype of its days.
\<close>

definition write_back :: "string \<Rightarrow> jsval list \<Rightarrow> jsval \<Rightarrow> jsval \<times> jsval option" where
  "write_back dk its prev =
     (let kept = pruneHistory (spread_with (js_or (js_get prev ''days'') (Obj [])) dk (Arr its [])) 7
      in (spread_with prev ''days'' (as_value kept), prototype kept))"

definition persist_effect_of :: "string \<Rightarrow> jsval list \<Rightarrow> app \<Rightarrow> app" where
  "persist_effect_of dk its st =
     (let (next, proto) = write_back dk its (store st)
      in set_store_saving next (st\<lparr>days_proto := proto\<rparr>))"

definition persist_effect :: "app \<Rightarrow> app" where
  "persist_effect st = persist_effect_of (dateKey st) (items st) st"

text \<open>
  \<^verbatim>\<open>
  const t = setInterval(() => {
    const tk = todayKey();
    setDateKey((prev) => {
      if (prev !== tk) {
        setStore((s) => { ... });
        setTab('today');
        return tk;
      }
      return prev;
    });
  }, 30_000);
  \<close>
\<close>

definition rollover_poll :: "local_date \<Rightarrow> app \<Rightarrow> error + app" where
  "rollover_poll d st =
     (let tk = todayKey d in
      if dateKey st \<noteq> tk
      then (case seed_day tk (env st) (store st) of
              Inl e \<Rightarrow> Inl e
            | Inr (next, proto, w) \<Rightarrow>
                Inr (set_store_saving next
                       (st\<lparr>env := w, tab := ''today'', dateKey := tk, days_proto := proto\<rparr>)))
      else Inr st)"

text \<open>
  \<^verbatim>\<open>
  function openHistoryDay(k) { setDateKey(k); setTab('today'); }
  \<close>
\<close>

definition openHistoryDay :: "string \<Rightarrow> app \<Rightarrow> app" where
  "openHistoryDay k st = st\<lparr>dateKey := k, tab := ''today''\<rparr>"

text \<open>
  After a handler returns, React renders again and runs the effects whose dependencies
  changed: the effect on \<^verbatim>\<open>[dateKey]\<close> when the key changed, and then, since
  \<^verbatim>\<open>normalizeDayItems\<close> returns a new array, the effect on \<^verbatim>\<open>[items]\<close>.
\<close>

definition effects_after :: "app \<Rightarrow> app \<Rightarrow> error + app" where
  "effects_after old st =
     (if dateKey st \<noteq> dateKey old
      then (case sync_effect st of Inl e \<Rightarrow> Inl e | Inr st1 \<Rightarrow> Inr (persist_effect st1))
      else Inr st)"

definition view_history_day :: "string \<Rightarrow> app \<Rightarrow> error + app" where
  "view_history_day k st = effects_after st (openHistoryDay k st)"

subsection \<open>Template management\<close>

text \<open>\<^verbatim>\<open>[...v]\<close>: arrays and strings are iterable, everything else throws.\<close>

fun array_spread :: "jsval \<Rightarrow> error + jsval list" where
  "array_spread (Arr xs ps) = Inr xs"
| "array_spread (Str s) = Inr (map (\<lambda>c. Str [c]) s)"
| "array_spread v = Inl TypeError"

text \<open>\<^verbatim>\<open>list.splice(idx, 1)\<close>, for an integer index: a negative start counts from the end.\<close>

definition splice1 :: "int \<Rightarrow> 'a list \<Rightarrow> 'a list" where
  "splice1 idx xs =
     (let len = int (length xs);
          start = (if idx < 0 then max (len + idx) 0 else min idx len);
          deleteCount = min (max 1 0) (len - start)
      in take (nat start) xs @ drop (nat (start + deleteCount)) xs)"

text \<open>
  \<^verbatim>\<open>
  function addTemplateItem(e) {
    const trimmed = tplText.trim();
    if (!trimmed) return;
    setStore((prev) => {
      const next = { ...prev, templates: { ...prev.templates,
                     [tplBucket]: [trimmed, ...(prev.templates?.[tplBucket] || [])] } };
      saveStore(next);
      return next;
    });
    setTplText('');
  }
  \<close>
  The inputs \<^verbatim>\<open>tplBucket\<close> and \<^verbatim>\<open>tplText\<close> are arguments.
\<close>

definition addTemplateItem :: "string \<Rightarrow> string \<Rightarrow> app \<Rightarrow> error + app" where
  "addTemplateItem tplBucket tplText st =
     (let trimmed = js_trim tplText in
      if trimmed = [] then Inr st
      else
        let prev = store st in
        case array_spread (js_or (js_get (js_get prev ''templates'') tplBucket) (Arr [] [])) of
          Inl e \<Rightarrow> Inl e
        | Inr rest \<Rightarrow>
            Inr (set_store_saving
                   (spread_with prev ''templates''
                      (spread_with (js_get prev ''templates'') tplBucket (Arr (Str trimmed # rest) [])))
                   st))"

text \<open>
  \<^verbatim>\<open>
  function removeTemplateItem(bucketId, idx) {
    setStore((prev) => {
      const list = [...(prev.templates?.[bucketId] || [])];
      list.splice(idx, 1);
      const next = { ...prev, templates: { ...prev.templates, [bucketId]: list } };
      saveStore(next);
      return next;
    });
  }
  \<close>
\<close>

definition removeTemplateItem :: "string \<Rightarrow> int \<Rightarrow> app \<Rightarrow> error + app" where
  "removeTemplateItem bucketId idx st =
     (let prev = store st in
      case array_spread (js_or (js_get (js_get prev ''templates'') bucketId) (Arr [] [])) of
        Inl e \<Rightarrow> Inl e
      | Inr list \<Rightarrow>
          Inr (set_store_saving
                 (spread_with prev ''templates''
                    (spread_with (js_get prev ''templates'') bucketId (Arr (splice1 idx list) [])))
                 st))"

subsection \<open>Runs of the component\<close>

text \<open>
  The states a mounted component passes through. It starts from the loaded store with the
  first effect, which seeds today. \<open>view\<close> covers the handlers that touch neither the store
  nor storage (\<^verbatim>\<open>addItem\<close>, \<^verbatim>\<open>toggleDone\<close>, \<^verbatim>\<open>removeItem\<close>, \<^verbatim>\<open>clearCompleted\<close>,
  \<^verbatim>\<open>markAllDone\<close>, \<^verbatim>\<open>resetToday\<close>, \<^verbatim>\<open>applyTemplatesToToday\<close>, \<^verbatim>\<open>openHistoryDay\<close>,
  \<^verbatim>\<open>setTab\<close>) and the clock: \<^verbatim>\<open>tab\<close>, \<^verbatim>\<open>items\<close> and the pending clock and random readings
  change freely, while \<^verbatim>\<open>dateKey\<close> stays, or becomes a key that \<^verbatim>\<open>todayKey()\<close> returns
  (\<^verbatim>\<open>resetToday\<close>, \<^verbatim>\<open>applyTemplatesToToday\<close>) or a key listed in the history, which are the
  keys of \<^verbatim>\<open>store.days\<close> (\<^verbatim>\<open>openHistoryDay\<close>). The template handlers are called with one of
  the three buckets.
\<close>

definition mounted ::
  "(string \<Rightarrow> jsval option) \<Rightarrow> string option \<Rightarrow> local_date \<Rightarrow> world \<Rightarrow> error + app" where
  "mounted JSON_parse raw d w =
     (case initial_store JSON_parse raw of
        Inl e \<Rightarrow> Inl e
      | Inr s \<Rightarrow>
          initial_effect d
            \<lparr>tab = ''today'', store = s, dateKey = todayKey d, items = [], env = w, saved = [],
             days_proto = None\<rparr>)"

inductive reachable :: "app \<Rightarrow> bool" where
  mount: "mounted JSON_parse raw d w = Inr st \<Longrightarrow> reachable st"
| view: "reachable st \<Longrightarrow>
     k = dateKey st \<or> k = todayKey d \<or> k \<in> set (Object_keys (js_get (store st) ''days'')) \<Longrightarrow>
     reachable (st\<lparr>tab := t, dateKey := k, items := its,
                   env := (env st)\<lparr>clock := c, ticks := n, random := r, draws := m\<rparr>\<rparr>)"
| sync: "reachable st \<Longrightarrow> sync_effect st = Inr st' \<Longrightarrow> reachable st'"
| persist: "reachable st \<Longrightarrow> reachable (persist_effect st)"
| poll: "reachable st \<Longrightarrow> rollover_poll d st = Inr st' \<Longrightarrow> reachable st'"
| add_template: "reachable st \<Longrightarrow> b \<in> set BUCKETS \<Longrightarrow> addTemplateItem b t st = Inr st' \<Longrightarrow>
     reachable st'"
| remove_template: "reachable st \<Longrightarrow> b \<in> set BUCKETS \<Longrightarrow> removeTemplateItem b i st = Inr st' \<Longrightarrow>
     reachable st'"

section \<open>Notions used in the statements\<close>

text \<open>The elements that \<^verbatim>\<open>normalizeDayItems\<close> keeps: non-null objects whose text converts to a
  string that is not empty after trimming; and the elements on which it throws: non-null
  objects whose text does not convert.\<close>

definition survives :: "jsval \<Rightarrow> bool" where
  "survives x \<longleftrightarrow>
     truthy x \<and> typeof x = ''object'' \<and>
     (case js_String (js_or (js_get x ''text'') (Str [])) of
        Inl e \<Rightarrow> False
      | Inr s \<Rightarrow> js_trim s \<noteq> [])"

definition unconvertible :: "jsval \<Rightarrow> bool" where
  "unconvertible x \<longleftrightarrow>
     truthy x \<and> typeof x = ''object'' \<and> isl (js_String (js_or (js_get x ''text'') (Str [])))"

text \<open>An item in the form \<^verbatim>\<open>normalizeDayItems\<close> produces: the six fields in order, a truthy id
  and bucket, a trimmed text that is not empty, boolean flags and a number as time stamp.\<close>

fun the_string :: "jsval \<Rightarrow> string" where
  "the_string (Str s) = s"
| "the_string v = []"

definition normalized_item :: "jsval \<Rightarrow> bool" where
  "normalized_item x \<longleftrightarrow>
     x = mk_item (js_get x ''id'') (js_get x ''text'') (js_get x ''bucket'') (js_get x ''done'')
           (js_get x ''createdAt'') (js_get x ''fromTemplate'')
     \<and> truthy (js_get x ''id'')
     \<and> typeof (js_get x ''text'') = ''string'' \<and> truthy (js_get x ''text'')
     \<and> js_trim (the_string (js_get x ''text'')) = the_string (js_get x ''text'')
     \<and> truthy (js_get x ''bucket'')
     \<and> typeof (js_get x ''done'') = ''boolean''
     \<and> typeof (js_get x ''createdAt'') = ''number''
     \<and> typeof (js_get x ''fromTemplate'') = ''boolean''"

text \<open>The date keys of a document, and the bound on them.\<close>

definition day_keys :: "jsval \<Rightarrow> string list" where
  "day_keys doc = Object_keys (js_get doc ''days'')"

definition within_week :: "jsval \<Rightarrow> bool" where
  "within_week doc \<longleftrightarrow> distinct (day_keys doc) \<and> length (day_keys doc) \<le> 7"

text \<open>\<open>kept\<close> are the \<open>n\<close> greatest of the keys \<open>ks\<close>, all of them if there are fewer.\<close>

definition newest_of :: "nat \<Rightarrow> string list \<Rightarrow> string list \<Rightarrow> bool" where
  "newest_of n ks kept \<longleftrightarrow>
     distinct kept \<and> set kept \<subseteq> set ks \<and> length kept = min n (length (remdups ks))
     \<and> (\<forall>a \<in> set kept. \<forall>b \<in> set ks. b \<notin> set kept \<longrightarrow> b < a)"

text \<open>What holds of every state of a mounted component.\<close>

definition week_invariant :: "app \<Rightarrow> bool" where
  "week_invariant st \<longleftrightarrow>
     within_week (store st) \<and> (\<forall>doc \<in> set (saved st). within_week doc)
     \<and> ''__proto__'' \<notin> set (day_keys (store st)) \<and> dateKey st \<noteq> ''__proto__''"

text \<open>What one call of \<^verbatim>\<open>saveStore\<close> leaves in storage: the document, if the write
  succeeded.\<close>

definition saved_after :: "app \<Rightarrow> jsval \<Rightarrow> jsval list" where
  "saved_after st doc =
     (if quota_ok (env st) (writes (env st)) then doc # saved st else saved st)"

section \<open>Template expansion as the specification words it\<close>

text \<open>
  The buckets in the fixed order morning, noon, evening; per bucket the template entries in
  stored order. The text of an entry is its string, trimmed; the entries with an empty text
  are skipped. The specification takes the entries to be strings: \<open>convertible\<close> says that
  \<^verbatim>\<open>String\<close> converts every entry.
\<close>

definition template_list :: "jsval \<Rightarrow> string \<Rightarrow> jsval list" where
  "template_list templates b =
     (if Array_isArray (js_get templates b) then array_elems (js_get templates b) else [])"

definition entries_of :: "jsval \<Rightarrow> string list \<Rightarrow> (string \<times> jsval) list" where
  "entries_of templates bs = concat (map (\<lambda>b. map (\<lambda>t. (b, t)) (template_list templates b)) bs)"

definition all_entries :: "jsval \<Rightarrow> (string \<times> jsval) list" where
  "all_entries templates = entries_of templates [''morning'', ''noon'', ''evening'']"

definition convertible :: "jsval \<Rightarrow> bool" where
  "convertible templates \<longleftrightarrow>
     list_all (\<lambda>e. \<not> isl (js_String (js_or (snd e) (Str [])))) (all_entries templates)"

definition entry_text :: "jsval \<Rightarrow> string" where
  "entry_text t = (case js_String (js_or t (Str [])) of Inl e \<Rightarrow> [] | Inr s \<Rightarrow> js_trim s)"

definition template_entries :: "jsval \<Rightarrow> (string \<times> string) list" where
  "template_entries templates =
     filter (\<lambda>e. snd e \<noteq> []) (map (\<lambda>e. (fst e, entry_text (snd e))) (all_entries templates))"

text \<open>One new item per entry, in order: a freshly generated id, not done, from a template,
  created at the given time.\<close>

fun fresh_items :: "54 word \<Rightarrow> world \<Rightarrow> (string \<times> string) list \<Rightarrow> jsval list \<times> world" where
  "fresh_items now w [] = ([], w)"
| "fresh_items now w (e # es) =
     (let (i, w1) = uid w;
          (rest, w2) = fresh_items now w1 es
      in (mk_item (Str i) (Str (snd e)) (Str (fst e)) (Bool False) (Num now) (Bool True) # rest, w2))"

text \<open>The time stamp is read once, at the start.\<close>

definition expand_spec :: "world \<Rightarrow> jsval \<Rightarrow> jsval list \<times> world" where
  "expand_spec w templates =
     (let (now, w1) = Date_now w in fresh_items now w1 (template_entries templates))"

text \<open>The id that the \<open>j\<close>-th next call of \<^verbatim>\<open>uid()\<close> returns from a world.\<close>

definition nth_uid :: "world \<Rightarrow> nat \<Rightarrow> string" where
  "nth_uid w j = int_to_radix 36 (sint (clock w (ticks w + j))) @ ''-'' @ random w (draws w + j)"

section \<open>Example inputs\<close>

text \<open>Worlds, dates, a store and stored blobs for the examples; \<open>JSON_parse_examples\<close> is
  what \<^verbatim>\<open>JSON.parse\<close> returns on these blobs, and a throw on the other texts used below. In
  \<open>stuck_world\<close> the clock stands still and the random digits repeat.\<close>

definition demo_world :: world where
  "demo_world = \<lparr>clock = (\<lambda>n. 1000 + of_nat n), ticks = 0, random = (\<lambda>n. nat_to_radix 36 (50 + n)),
     draws = 0, quota_ok = (\<lambda>n. True), writes = 0\<rparr>"

definition stuck_world :: world where
  "stuck_world = \<lparr>clock = (\<lambda>n. 1000), ticks = 0, random = (\<lambda>n. ''1e''),
     draws = 0, quota_ok = (\<lambda>n. True), writes = 0\<rparr>"

definition january_2024 :: "nat \<Rightarrow> local_date" where
  "january_2024 n = \<lparr>getFullYear = 2024, getMonth = 0, getDate = of_nat n\<rparr>"

definition legacy_blob :: string where
  \<open>legacy_blob = ''{"dateKey":"2023-12-31","items":[{"text":"X"}]}''\<close>

definition empty_key_blob :: string where
  \<open>empty_key_blob = ''{"dateKey":"","items":[{"text":"X"}]}''\<close>

definition proto_blob :: string where
  \<open>proto_blob = ''{"days":{"__proto__":[],"2023-12-31":[{"text":"X"}]}}''\<close>

definition JSON_parse_examples :: "string \<Rightarrow> jsval option" where
  "JSON_parse_examples raw =
     (if raw = legacy_blob
      then Some (Obj [(''dateKey'', Str ''2023-12-31''), (''items'', Arr [Obj [(''text'', Str ''X'')]] [])])
      else if raw = empty_key_blob
      then Some (Obj [(''dateKey'', Str ''''), (''items'', Arr [Obj [(''text'', Str ''X'')]] [])])
      else if raw = proto_blob
      then Some (Obj [(''days'', Obj [(''__proto__'', Arr [] []),
                                      (''2023-12-31'', Arr [Obj [(''text'', Str ''X'')]] [])])])
      else if raw = ''42'' then Some (Num 42)
      else None)"

definition demo_app :: app where
  "demo_app = \<lparr>tab = ''today'',
     store = Obj [(''version'', Num 2),
                  (''templates'', Obj [(''morning'', Arr [Str ''A'', Str ''B''] []), (''noon'', Arr [] []),
                                       (''evening'', Arr [] [])]),
                  (''days'', Obj [(''2024-01-01'', Arr [Obj [(''text'', Str ''X'')]] [])])],
     dateKey = ''2024-01-01'', items = [], env = demo_world, saved = [], days_proto = None\<rparr>"

section \<open>Properties of the JavaScript layer\<close>

lemma mset_place_by: "mset (place_by cmp x xs) = add_mset x (mset xs)"
  by (induction xs) auto

lemma mset_js_sort: "mset (js_sort cmp xs) = mset xs"
  unfolding js_sort_def by (induction xs) (auto simp: mset_place_by)

lemma set_place_by: "set (place_by cmp x xs) = insert x (set xs)"
  by (induction xs) auto

lemma desc_place_by:
  "sorted_wrt (\<lambda>a b. b \<le> a) xs \<Longrightarrow> sorted_wrt (\<lambda>a b. b \<le> a) (place_by newest_first x xs)"
  by (induction xs) (auto simp: set_place_by newest_first_def)

lemma desc_js_sort: "sorted_wrt (\<lambda>a b. b \<le> a) (js_sort newest_first xs)"
  unfolding js_sort_def by (induction xs) (auto simp: desc_place_by)

lemma set_js_sort: "set (js_sort cmp xs) = set xs"
  by (metis mset_js_sort set_mset_mset)

lemma distinct_js_sort: "distinct (js_sort cmp xs) = distinct xs"
  by (metis mset_js_sort distinct_count_atmost_1 set_mset_mset count_mset)

lemma length_js_sort: "length (js_sort cmp xs) = length xs"
  by (metis mset_js_sort size_mset)

lemma fold_update_fresh:
  "distinct ks \<Longrightarrow> set ks \<inter> fst ` set acc = {} \<Longrightarrow>
   foldl (\<lambda>kept k. AList.update k (f k) kept) acc ks = acc @ map (\<lambda>k. (k, f k)) ks"
proof (induction ks arbitrary: acc)
  case Nil
  then show ?case by simp
next
  case (Cons k ks)
  have "AList.update k (f k) acc = acc @ [(k, f k)]"
    using Cons.prems(2) by (induction acc) auto
  then show ?case using Cons by (auto simp: image_Un)
qed

lemma take_desc_above_rest:
  "sorted_wrt (\<lambda>a b. b \<le> a) xs \<Longrightarrow> distinct xs \<Longrightarrow> a \<in> set (take n xs) \<Longrightarrow>
   b \<in> set xs \<Longrightarrow> b \<notin> set (take n xs) \<Longrightarrow> (b::'a::linorder) < a"
proof -
  assume s: "sorted_wrt (\<lambda>a b. b \<le> a) xs" and d: "distinct xs"
    and a: "a \<in> set (take n xs)" and b: "b \<in> set xs" and nb: "b \<notin> set (take n xs)"
  have "xs = take n xs @ drop n xs" by simp
  then have "b \<in> set (drop n xs)" using b nb by (metis Un_iff set_append)
  moreover have "sorted_wrt (\<lambda>a b. b \<le> a) (take n xs @ drop n xs)" using s by simp
  ultimately have "b \<le> a" using a unfolding sorted_wrt_append by blast
  moreover have "a \<noteq> b" using a nb by blast
  ultimately show ?thesis by simp
qed

lemma Object_keys_Obj [simp]: "Object_keys (Obj d) = map fst d"
  by (simp add: Object_keys_def)

lemma js_get_Obj: "js_get (Obj d) k = (case map_of d k of Some x \<Rightarrow> x | None \<Rightarrow> Undefined)"
  by (simp add: js_get_def split: option.splits)

lemma map_of_tabulate: "map_of (map (\<lambda>k. (k, f k)) ks) k = (if k \<in> set ks then Some (f k) else None)"
  by (induction ks) auto

lemma slice0_7: "slice0 7 xs = take 7 xs"
  by (simp add: slice0_def Let_def min_def)

lemma own_fold_set_prop:
  "own (foldl (\<lambda>kept k. set_prop kept k (f k)) obj ks) =
     foldl (\<lambda>kept k. AList.update k (f k) kept) (own obj) (filter (\<lambda>k. k \<noteq> ''__proto__'') ks)"
  by (induction ks arbitrary: obj) (simp_all add: set_prop_def)

lemma prototype_fold_set_prop:
  "''__proto__'' \<notin> set ks \<Longrightarrow>
   prototype (foldl (\<lambda>kept k. set_prop kept k (f k)) obj ks) = prototype obj"
  by (induction ks arbitrary: obj) (auto simp: set_prop_def)

lemma own_pruneHistory:
  assumes "distinct (map fst d)"
  shows "own (pruneHistory (Obj d) keep) =
    map (\<lambda>k. (k, js_get (Obj d) k))
      (filter (\<lambda>k. k \<noteq> ''__proto__'') (slice0 keep (js_sort newest_first (map fst d))))"
proof -
  have "distinct (js_sort newest_first (map fst d))"
    using assms by (simp add: distinct_js_sort)
  then have "distinct (filter (\<lambda>k. k \<noteq> ''__proto__'') (slice0 keep (js_sort newest_first (map fst d))))"
    by (simp add: slice0_def Let_def)
  then show ?thesis
    by (simp add: pruneHistory_def js_or_def Let_def own_fold_set_prop fold_update_fresh)
qed

lemma keys_pruneHistory:
  "distinct (map fst d) \<Longrightarrow>
   Object_keys (as_value (pruneHistory (Obj d) 7)) =
     filter (\<lambda>k. k \<noteq> ''__proto__'') (take 7 (js_sort newest_first (map fst d)))"
  by (simp add: as_value_def own_pruneHistory slice0_7 comp_def)

lemma newest_of_take:
  assumes "distinct ks" and "set ks = set all"
  shows "newest_of 7 all (take 7 (js_sort newest_first ks))"
proof -
  let ?s = "js_sort newest_first ks"
  have d: "distinct ?s" using assms(1) by (simp add: distinct_js_sort)
  have "length (remdups all) = card (set all)" by (simp add: length_remdups_card_conv)
  also have "\<dots> = length ks" using assms by (metis distinct_card)
  finally have l: "length (take 7 ?s) = min 7 (length (remdups all))"
    by (simp add: length_js_sort min.commute)
  have sub: "set (take 7 ?s) \<subseteq> set all"
    using set_take_subset [of 7 ?s] assms(2) by (simp only: set_js_sort)
  have top: "b < a" if "a \<in> set (take 7 ?s)" "b \<in> set all" "b \<notin> set (take 7 ?s)" for a b
  proof -
    have "b \<in> set ?s" using that(2) assms(2) by (simp only: set_js_sort)
    then show ?thesis
      using take_desc_above_rest [OF desc_js_sort d that(1) _ that(3)] by blast
  qed
  show ?thesis
    unfolding newest_of_def using d l sub top by (auto simp: distinct_take)
qed

lemma filter_id_notin: "x \<notin> set xs \<Longrightarrow> filter (\<lambda>k. k \<noteq> x) xs = xs"
  by (induction xs) auto

section \<open>History pruner\<close>




section \<open>Item normalizer: the bucket\<close>

lemma js_get_mk_item [simp]:
  "js_get (mk_item i t b d c f) ''id'' = i"
  "js_get (mk_item i t b d c f) ''text'' = t"
  "js_get (mk_item i t b d c f) ''bucket'' = b"
  "js_get (mk_item i t b d c f) ''done'' = d"
  "js_get (mk_item i t b d c f) ''createdAt'' = c"
  "js_get (mk_item i t b d c f) ''fromTemplate'' = f"
  by (simp_all add: mk_item_def js_get_def)

lemma uid_nonempty: "fst (uid w) \<noteq> []"
  by (simp add: uid_def Date_now_def Math_random36_def)

lemma normalizeItem_throws:
  "isl (normalizeItem w x) = isl (js_String (js_or (js_get x ''text'') (Str [])))"
  by (simp add: normalizeItem_def Let_def case_prod_beta split: sum.splits)

lemma normalizeItem_returns:
  assumes "normalizeItem w x = Inr (y, w')"
  shows "\<exists>s i c. js_String (js_or (js_get x ''text'') (Str [])) = Inr s
      \<and> y = mk_item i (Str (js_trim s)) (js_or (js_get x ''bucket'') (Str ''morning''))
              (Bool (truthy (js_get x ''done''))) c (Bool (truthy (js_get x ''fromTemplate'')))
      \<and> truthy i \<and> typeof c = ''number''"
proof -
  obtain s where s: "js_String (js_or (js_get x ''text'') (Str [])) = Inr s"
    using assms normalizeItem_throws [of w x] by (cases "js_String (js_or (js_get x ''text'') (Str []))") auto
  let ?i = "if truthy (js_get x ''id'') then js_get x ''id'' else Str (fst (uid w))"
  let ?w1 = "if truthy (js_get x ''id'') then w else snd (uid w)"
  let ?c = "if typeof (js_get x ''createdAt'') = ''number'' then js_get x ''createdAt''
            else Num (fst (Date_now ?w1))"
  have "normalizeItem w x =
      Inr (mk_item ?i (Str (js_trim s)) (js_or (js_get x ''bucket'') (Str ''morning''))
              (Bool (truthy (js_get x ''done''))) ?c (Bool (truthy (js_get x ''fromTemplate''))),
           if typeof (js_get x ''createdAt'') = ''number'' then ?w1 else snd (Date_now ?w1))"
    by (simp add: normalizeItem_def Let_def case_prod_beta s)
  then have y: "y = mk_item ?i (Str (js_trim s)) (js_or (js_get x ''bucket'') (Str ''morning''))
              (Bool (truthy (js_get x ''done''))) ?c (Bool (truthy (js_get x ''fromTemplate'')))"
    using assms by simp
  have "truthy ?i" using uid_nonempty [of w] by simp
  moreover have "typeof ?c = ''number''" by simp
  ultimately show ?thesis using s y by blast
qed

lemma map_world_project:
  assumes "\<And>w x y w'. f w x = Inr (y, w') \<Longrightarrow> g y = h x \<and> P y = Q x"
    and "map_world f w xs = Inr (ys, w')"
  shows "map g (filter P ys) = map h (filter Q xs)"
  using assms(2)
proof (induction xs arbitrary: w ys)
  case Nil
  then show ?case by simp
next
  case (Cons x xs)
  from Cons.prems obtain y w1 zs where f: "f w x = Inr (y, w1)"
    and m: "map_world f w1 xs = Inr (zs, w')" and ys: "ys = y # zs"
    by (auto split: sum.splits)
  have "g y = h x" "P y = Q x" using assms(1) [OF f] by simp_all
  moreover have "map g (filter P zs) = map h (filter Q xs)" using Cons.IH [OF m] .
  ultimately show ?case using ys by simp
qed

lemma map_world_throws:
  assumes "\<And>w x. isl (f w x) = E x"
  shows "isl (map_world f w xs) = (\<exists>x \<in> set xs. E x)"
proof (induction xs arbitrary: w)
  case Nil
  then show ?case by simp
next
  case (Cons x xs)
  show ?case
  proof (cases "f w x")
    case (Inl e)
    then have "E x" using assms [of w x] by simp
    then show ?thesis using Inl by simp
  next
    case (Inr r)
    obtain y w1 where r: "r = (y, w1)" by (cases r)
    have "\<not> E x" using assms [of w x] Inr by simp
    then show ?thesis using Inr r Cons.IH [of w1] by (cases "map_world f w1 xs") auto
  qed
qed

lemma normalizeDayItems_Arr:
  "normalizeDayItems w (Arr xs ps) =
     (case map_world normalizeItem w (filter (\<lambda>x. truthy x \<and> typeof x = ''object'') xs) of
        Inl e \<Rightarrow> Inl e
      | Inr (ys, w1) \<Rightarrow> Inr (filter (\<lambda>y. truthy (js_get y ''text'')) ys, w1))"
  by (simp add: normalizeDayItems_def)

lemma normalizeDayItems_throws:
  "isl (normalizeDayItems w (Arr xs ps)) = (\<exists>x \<in> set xs. unconvertible x)"
proof -
  have "isl (normalizeDayItems w (Arr xs ps)) =
      isl (map_world normalizeItem w (filter (\<lambda>x. truthy x \<and> typeof x = ''object'') xs))"
    by (simp add: normalizeDayItems_Arr split: sum.splits)
  also have "\<dots> = (\<exists>x \<in> set (filter (\<lambda>x. truthy x \<and> typeof x = ''object'') xs).
      isl (js_String (js_or (js_get x ''text'') (Str []))))"
    by (rule map_world_throws) (rule normalizeItem_throws)
  finally show ?thesis by (auto simp: unconvertible_def)
qed

text \<open>
  C8 (as amended). \<^verbatim>\<open>normalizeDayItems\<close> throws a TypeError exactly when the text of some
  non-null object element does not convert to a string. When it returns, the buckets of the
  items it returns are, in order, those of the surviving input elements: the input's bucket
  whenever it is truthy, whether or not it is one of morning, noon and evening, and morning
  when it is absent or falsy.
\<close>

theorem normalize_bucket_default:
  "(\<forall>ys w1. normalizeDayItems w (Arr xs ps) = Inr (ys, w1) \<longrightarrow>
      map (\<lambda>y. js_get y ''bucket'') ys =
      map (\<lambda>x. if truthy (js_get x ''bucket'') then js_get x ''bucket'' else Str ''morning'')
          (filter survives xs))
   \<and> (isl (normalizeDayItems w (Arr xs ps)) \<longleftrightarrow> (\<exists>x \<in> set xs. unconvertible x))"
proof -
  have "map (\<lambda>y. js_get y ''bucket'') ys =
      map (\<lambda>x. if truthy (js_get x ''bucket'') then js_get x ''bucket'' else Str ''morning'')
          (filter survives xs)"
    if r: "normalizeDayItems w (Arr xs ps) = Inr (ys, w1)" for ys w1
  proof -
    let ?os = "filter (\<lambda>x. truthy x \<and> typeof x = ''object'') xs"
    from r obtain zs where m: "map_world normalizeItem w ?os = Inr (zs, w1)"
      and ys: "ys = filter (\<lambda>y. truthy (js_get y ''text'')) zs"
      by (auto simp: normalizeDayItems_Arr split: sum.splits)
    have "map (\<lambda>y. js_get y ''bucket'') (filter (\<lambda>y. truthy (js_get y ''text'')) zs) =
        map (\<lambda>x. js_or (js_get x ''bucket'') (Str ''morning''))
          (filter (\<lambda>x. case js_String (js_or (js_get x ''text'') (Str [])) of
                          Inl e \<Rightarrow> False | Inr s \<Rightarrow> js_trim s \<noteq> []) ?os)"
    proof (rule map_world_project [OF _ m])
      fix w x y w'
      assume "normalizeItem w x = Inr (y, w')"
      from normalizeItem_returns [OF this]
      show "js_get y ''bucket'' = js_or (js_get x ''bucket'') (Str ''morning'') \<and>
          truthy (js_get y ''text'') =
          (case js_String (js_or (js_get x ''text'') (Str [])) of
             Inl e \<Rightarrow> False | Inr s \<Rightarrow> js_trim s \<noteq> [])"
        by auto
    qed
    moreover have "filter (\<lambda>x. case js_String (js_or (js_get x ''text'') (Str [])) of
                          Inl e \<Rightarrow> False | Inr s \<Rightarrow> js_trim s \<noteq> []) ?os = filter survives xs"
      by (induction xs) (simp_all add: survives_def)
    moreover have "(\<lambda>x. js_or (js_get x ''bucket'') (Str ''morning'')) =
        (\<lambda>x. if truthy (js_get x ''bucket'') then js_get x ''bucket'' else Str ''morning'')"
      by (simp add: js_or_def)
    ultimately show ?thesis by (simp only: ys)
  qed
  then show ?thesis
    using normalizeDayItems_throws [of w xs ps] by blast
qed

theorem normalize_bucket_default_witness:
  "normalizeDayItems demo_world
      (Arr [Obj [(''id'', Str ''a''), (''text'', Str ''A''), (''bucket'', Str ''noon''), (''createdAt'', Num 5)],
            Obj [(''id'', Str ''b''), (''text'', Str ''B''), (''createdAt'', Num 6)], Null] [])
     = Inr ([mk_item (Str ''a'') (Str ''A'') (Str ''noon'') (Bool False) (Num 5) (Bool False),
             mk_item (Str ''b'') (Str ''B'') (Str ''morning'') (Bool False) (Num 6) (Bool False)],
            demo_world)
   \<and> map (\<lambda>x. if truthy (js_get x ''bucket'') then js_get x ''bucket'' else Str ''morning'')
       (filter survives
          [Obj [(''id'', Str ''a''), (''text'', Str ''A''), (''bucket'', Str ''noon''), (''createdAt'', Num 5)],
           Obj [(''id'', Str ''b''), (''text'', Str ''B''), (''createdAt'', Num 6)], Null])
     = [Str ''noon'', Str ''morning'']
   \<and> isl (normalizeDayItems demo_world (Arr [Obj [(''text'', Obj [(''toString'', Num 1)])]] []))"
proof -
  let ?xs = "[Obj [(''id'', Str ''a''), (''text'', Str ''A''), (''bucket'', Str ''noon''), (''createdAt'', Num 5)],
            Obj [(''id'', Str ''b''), (''text'', Str ''B''), (''createdAt'', Num 6)], Null]"
  have r: "normalizeDayItems demo_world (Arr ?xs [])
     = Inr ([mk_item (Str ''a'') (Str ''A'') (Str ''noon'') (Bool False) (Num 5) (Bool False),
             mk_item (Str ''b'') (Str ''B'') (Str ''morning'') (Bool False) (Num 6) (Bool False)],
            demo_world)"
    by (simp add: normalizeDayItems_def normalizeItem_def js_get_def js_or_def js_trim_def is_space_def
        mk_item_def)
  have u: "unconvertible (Obj [(''text'', Obj [(''toString'', Num 1)])])"
    by (simp add: unconvertible_def js_get_def js_or_def)
  note t = normalize_bucket_default [of demo_world ?xs "[]"]
  have "map (\<lambda>x. if truthy (js_get x ''bucket'') then js_get x ''bucket'' else Str ''morning'')
       (filter survives ?xs) = [Str ''noon'', Str ''morning'']"
    using t [THEN conjunct1, rule_format, OF r] by simp
  moreover have "isl (normalizeDayItems demo_world (Arr [Obj [(''text'', Obj [(''toString'', Num 1)])]] []))"
    using normalize_bucket_default [of demo_world "[Obj [(''text'', Obj [(''toString'', Num 1)])]]" "[]",
        THEN conjunct2] u by simp
  ultimately show ?thesis using r by (intro conjI)
qed

text \<open>An input bucket outside the three names is kept, not replaced by morning.\<close>

theorem normalize_bucket_counterexample:
  "map_sum id fst
     (normalizeDayItems demo_world (Arr [Obj [(''text'', Str ''A''), (''bucket'', Str ''night'')]] [])) =
     Inr [mk_item (Str ''rs-1e'') (Str ''A'') (Str ''night'') (Bool False) (Num 1001) (Bool False)]
   \<and> ''night'' \<notin> set BUCKETS"
  by code_simp

section \<open>Store codec: loading\<close>

lemma js_get_Obj_simps [simp]:
  "js_get (Obj []) k = Undefined"
  "js_get (Obj ((k', v) # kvs)) k = (if k = k' then v else js_get (Obj kvs) k)"
  by (simp_all add: js_get_Obj)

text \<open>
  C5 (as amended). For every stored blob that parses to an object whose \<^verbatim>\<open>dateKey\<close> is a
  non-empty string and whose \<^verbatim>\<open>items\<close> is an array, \<^verbatim>\<open>loadStore\<close> returns the version-2
  document whose days hold exactly one entry, that key with the items array as it was
  stored, and whose three template lists are empty.
\<close>

theorem loadStore_migrates_legacy:
  assumes "raw \<noteq> []"
    and "JSON_parse raw = Some (Obj kvs)"
    and "js_get (Obj kvs) ''dateKey'' = Str k" and "k \<noteq> []"
    and "js_get (Obj kvs) ''items'' = Arr xs ps"
  shows "loadStore JSON_parse (Some raw) =
     Inr (Obj [(''version'', Num 2),
          (''templates'', Obj [(''morning'', Arr [] []), (''noon'', Arr [] []), (''evening'', Arr [] [])]),
          (''days'', Obj [(k, Arr xs ps)])])"
  using assms by (simp add: loadStore_def safeJSONParse_def empty_templates_def)

theorem loadStore_migrates_legacy_witness:
  "loadStore JSON_parse_examples (Some legacy_blob) =
     Inr (Obj [(''version'', Num 2),
          (''templates'', Obj [(''morning'', Arr [] []), (''noon'', Arr [] []), (''evening'', Arr [] [])]),
          (''days'', Obj [(''2023-12-31'', Arr [Obj [(''text'', Str ''X'')]] [])])])"
proof -
  have "legacy_blob \<noteq> []" by (simp add: legacy_blob_def)
  moreover have "JSON_parse_examples legacy_blob =
      Some (Obj [(''dateKey'', Str ''2023-12-31''), (''items'', Arr [Obj [(''text'', Str ''X'')]] [])])"
    by (simp add: JSON_parse_examples_def)
  ultimately show ?thesis
    by (rule loadStore_migrates_legacy) simp_all
qed

text \<open>A blob of the legacy shape whose \<^verbatim>\<open>dateKey\<close> is the empty string is not migrated: the
  guard \<^verbatim>\<open>parsed.dateKey && ...\<close> fails, and the days of the result are empty.\<close>

theorem loadStore_legacy_counterexample:
  "JSON_parse_examples empty_key_blob =
     Some (Obj [(''dateKey'', Str ''''), (''items'', Arr [Obj [(''text'', Str ''X'')]] [])])
   \<and> \<not> isl (loadStore JSON_parse_examples (Some empty_key_blob))
   \<and> js_get (projr (loadStore JSON_parse_examples (Some empty_key_blob))) ''days'' = Obj []"
  by (simp add: JSON_parse_examples_def empty_key_blob_def legacy_blob_def proto_blob_def loadStore_def
      safeJSONParse_def backfill_def)

text \<open>
  C9 (as amended). For every non-empty stored blob that does not parse, or parses to a value
  that is falsy or not of type object, \<^verbatim>\<open>loadStore\<close> returns \<^verbatim>\<open>null\<close> (it is total: nothing
  is thrown), and the initialiser of the store substitutes the document with version 2,
  three empty template lists and no days.
\<close>

theorem corrupt_store_falls_back:
  assumes "raw \<noteq> []"
    and "JSON_parse raw = None \<or>
         (\<exists>v. JSON_parse raw = Some v \<and> (\<not> truthy v \<or> typeof v \<noteq> ''object''))"
  shows "loadStore JSON_parse (Some raw) = Inr Null \<and>
         initial_store JSON_parse (Some raw) =
           Inr (Obj [(''version'', Num 2),
                (''templates'', Obj [(''morning'', Arr [] []), (''noon'', Arr [] []), (''evening'', Arr [] [])]),
                (''days'', Obj [])])"
proof -
  have "loadStore JSON_parse (Some raw) = Inr Null"
    using assms by (auto simp: loadStore_def safeJSONParse_def)
  then show ?thesis
    by (simp add: initial_store_def js_or_def fallback_store_def empty_templates_def)
qed

theorem corrupt_store_falls_back_witness:
  "initial_store JSON_parse_examples (Some ''not json'') = Inr fallback_store
   \<and> initial_store JSON_parse_examples (Some ''42'') = Inr fallback_store"
proof -
  have a: "JSON_parse_examples ''not json'' = None"
    by (simp add: JSON_parse_examples_def legacy_blob_def empty_key_blob_def proto_blob_def)
  have b: "JSON_parse_examples ''42'' = Some (Num 42)"
    by (simp add: JSON_parse_examples_def legacy_blob_def empty_key_blob_def proto_blob_def)
  show ?thesis
    using corrupt_store_falls_back [of "''not json''" JSON_parse_examples]
      corrupt_store_falls_back [of "''42''" JSON_parse_examples] a b
    by (simp add: fallback_store_def empty_templates_def)
qed

text \<open>The substitute is not the document of a first run: its template lists are empty,
  while the first run's hold the built-in templates.\<close>

theorem corrupt_store_counterexample:
  "JSON_parse_examples ''not json'' = None
   \<and> initial_store JSON_parse_examples (Some ''not json'') \<noteq> initial_store JSON_parse_examples None
   \<and> initial_store JSON_parse_examples (Some ''not json'') = Inr fallback_store
   \<and> initial_store JSON_parse_examples None = Inr fresh_store
   \<and> js_get (js_get fallback_store ''templates'') ''morning'' = Arr [] []
   \<and> js_get (js_get fresh_store ''templates'') ''morning''
       = Arr [Str ''Water'', Str ''Stretch'', Str ''Plan day''] []"
  by (simp add: JSON_parse_examples_def legacy_blob_def empty_key_blob_def proto_blob_def initial_store_def
      loadStore_def safeJSONParse_def js_or_def fallback_store_def fresh_store_def
      empty_templates_def default_templates_def)

section \<open>Template removal\<close>

lemma splice1_beyond: "int (length xs) \<le> idx \<Longrightarrow> splice1 idx xs = xs"
  by (simp add: splice1_def Let_def min_def)

lemma splice1_negative:
  assumes "idx < 0" and "xs \<noteq> []"
  shows "splice1 idx xs =
    take (nat (int (length xs) + idx)) xs @ drop (Suc (nat (int (length xs) + idx))) xs"
proof -
  define s where "s = max (int (length xs) + idx) 0"
  have len: "0 < int (length xs)" using assms(2) by simp
  have s: "0 \<le> s" "s < int (length xs)" using assms(1) len by (simp_all add: s_def)
  have n: "nat s = nat (int (length xs) + idx)" by (simp add: s_def max_def)
  have d: "min (max 1 0) (int (length xs) - s) = 1" using s by (simp add: min_def)
  have "splice1 idx xs = take (nat s) xs @ drop (nat (s + 1)) xs"
    using assms(1) d by (simp add: splice1_def Let_def s_def)
  moreover have "nat (s + 1) = Suc (nat s)" using s(1) by (simp add: nat_add_distrib)
  ultimately show ?thesis by (simp only: n)
qed

lemma length_splice1_negative:
  assumes "idx < 0" and "xs \<noteq> []"
  shows "length (splice1 idx xs) = length xs - 1"
proof -
  have "0 < length xs" using assms(2) by simp
  then have "nat (int (length xs) + idx) < length xs" using assms(1) by linarith
  then show ?thesis by (simp add: splice1_negative [OF assms])
qed

lemma js_get_spread_with_same [simp]: "js_get (spread_with v k x) k = x"
  by (simp add: spread_with_def js_get_Obj update_conv')

lemma js_get_spread_with_other: "k' \<noteq> k \<Longrightarrow> js_get (spread_with v k x) k' = js_get (Obj (own_props v)) k'"
  by (simp add: spread_with_def js_get_Obj update_conv')

lemma store_set_store_saving [simp]: "store (set_store_saving next st) = next"
  by (simp add: set_store_saving_def saveStore_def Let_def)

lemma removeTemplateItem_Arr:
  assumes "js_get (js_get (store st) ''templates'') b = Arr xs ps"
  shows "removeTemplateItem b idx st =
     Inr (set_store_saving
            (spread_with (store st) ''templates''
               (spread_with (js_get (store st) ''templates'') b (Arr (splice1 idx xs) []))) st)"
  using assms by (simp add: removeTemplateItem_def Let_def js_or_def)

text \<open>
  C10 (as amended). For every bucket whose template list is an array, \<^verbatim>\<open>removeTemplateItem\<close>
  does not throw and stores the list after \<^verbatim>\<open>splice(idx, 1)\<close>: for an index at or beyond the
  length the entries are unchanged; a negative index is not a no-op, on a list that is not
  empty it removes the entry at position \<open>max (length + idx) 0\<close>, counted that is from the
  end.
\<close>

theorem removeTemplateItem_out_of_range:
  assumes "js_get (js_get (store st) ''templates'') b = Arr xs ps"
  shows "\<not> isl (removeTemplateItem b idx st)
    \<and> js_get (js_get (store (projr (removeTemplateItem b idx st))) ''templates'') b
        = Arr (splice1 idx xs) []
    \<and> (int (length xs) \<le> idx \<longrightarrow> splice1 idx xs = xs)
    \<and> (idx < 0 \<and> xs \<noteq> [] \<longrightarrow>
         splice1 idx xs = take (nat (int (length xs) + idx)) xs
                          @ drop (Suc (nat (int (length xs) + idx))) xs
         \<and> length (splice1 idx xs) = length xs - 1)"
  by (simp add: removeTemplateItem_Arr [OF assms] splice1_beyond splice1_negative [symmetric]
      length_splice1_negative)

theorem removeTemplateItem_out_of_range_witness:
  "js_get (js_get (store (projr (removeTemplateItem ''morning'' 2 demo_app))) ''templates'') ''morning''
     = Arr [Str ''A'', Str ''B''] []
   \<and> js_get (js_get (store (projr (removeTemplateItem ''morning'' (- 3) demo_app))) ''templates'') ''morning''
     = Arr [Str ''B''] []"
proof -
  have t: "js_get (js_get (store demo_app) ''templates'') ''morning'' = Arr [Str ''A'', Str ''B''] []"
    by (simp add: demo_app_def)
  show ?thesis
    using removeTemplateItem_out_of_range [OF t, of 2] removeTemplateItem_out_of_range [OF t, of "- 3"]
    by simp
qed

text \<open>Index \<open>-1\<close> on the list A, B removes B.\<close>

theorem removeTemplateItem_counterexample:
  "js_get (js_get (store demo_app) ''templates'') ''morning'' = Arr [Str ''A'', Str ''B''] []
   \<and> \<not> isl (removeTemplateItem ''morning'' (- 1) demo_app)
   \<and> js_get (js_get (store (projr (removeTemplateItem ''morning'' (- 1) demo_app))) ''templates'') ''morning''
       = Arr [Str ''A''] []"
  by (simp add: removeTemplateItem_def demo_app_def js_or_def splice1_def Let_def)

section \<open>Item normalizer: idempotence\<close>

lemma js_trim_idem: "js_trim (js_trim s) = js_trim s"
proof -
  let ?u = "dropWhile is_space s"
  let ?v = "dropWhile is_space (rev ?u)"
  have v: "dropWhile is_space ?v = ?v"
    by simp
  have u: "dropWhile is_space (rev ?v) = rev ?v"
  proof (cases "?v = []")
    case True
    show ?thesis by (simp only: True rev.simps(1) dropWhile.simps(1))
  next
    case False
    then have nv: "\<not> is_space (hd ?v)" by (rule hd_dropWhile)
    have "?u \<noteq> []"
    proof
      assume e: "?u = []"
      have "?v = []" by (simp only: e rev.simps(1) dropWhile.simps(1))
      with False show False by contradiction
    qed
    then have nu: "\<not> is_space (hd ?u)" by (rule hd_dropWhile)
    have "hd ?v \<in> set (rev ?u)" using False by (metis hd_in_set set_dropWhileD)
    then have "last ?v = last (rev ?u)" using nv by (rule dropWhile_last)
    then have "hd (rev ?v) = hd ?u" using False \<open>?u \<noteq> []\<close> by (simp add: hd_rev last_rev)
    then show ?thesis using nu by (simp add: dropWhile_eq_self_iff)
  qed
  show ?thesis
    unfolding js_trim_def by (simp only: u rev_rev_ident v)
qed

lemma typeof_cases:
  "typeof v = ''boolean'' \<Longrightarrow> v = Bool (truthy v)"
  "typeof v = ''string'' \<Longrightarrow> v = Str (the_string v)"
  by (cases v; simp)+

lemma normalizeItem_normalized:
  assumes "normalizeItem w x = Inr (y, w')" and "truthy (js_get y ''text'')"
  shows "normalized_item y"
proof -
  from normalizeItem_returns [OF assms(1)] obtain s i c where
    y: "y = mk_item i (Str (js_trim s)) (js_or (js_get x ''bucket'') (Str ''morning''))
              (Bool (truthy (js_get x ''done''))) c (Bool (truthy (js_get x ''fromTemplate'')))"
    and i: "truthy i" and c: "typeof c = ''number''"
    by blast
  have b: "truthy (js_or (js_get x ''bucket'') (Str ''morning''))" by (simp add: js_or_def)
  show ?thesis
    unfolding normalized_item_def using assms(2) i c b by (simp add: y js_trim_idem)
qed

lemma normalizeItem_fixed:
  assumes "normalized_item x"
  shows "normalizeItem w x = Inr (x, w)"
proof -
  note n = assms [unfolded normalized_item_def]
  have s: "js_get x ''text'' = Str (the_string (js_get x ''text''))"
    using n typeof_cases(2) by blast
  have t: "js_String (js_or (js_get x ''text'') (Str [])) = Inr (the_string (js_get x ''text''))"
    using n by (subst s) (simp add: js_or_def)
  have d: "Bool (truthy (js_get x ''done'')) = js_get x ''done''"
    using n typeof_cases(1) [of "js_get x ''done''"] by simp
  have f: "Bool (truthy (js_get x ''fromTemplate'')) = js_get x ''fromTemplate''"
    using n typeof_cases(1) [of "js_get x ''fromTemplate''"] by simp
  have b: "js_or (js_get x ''bucket'') (Str ''morning'') = js_get x ''bucket''"
    using n by (simp add: js_or_def)
  have tt: "Str (js_trim (the_string (js_get x ''text''))) = js_get x ''text''"
    using n s by simp
  have "normalizeItem w x =
     Inr (mk_item (js_get x ''id'') (Str (js_trim (the_string (js_get x ''text''))))
           (js_get x ''bucket'') (js_get x ''done'')
           (js_get x ''createdAt'') (js_get x ''fromTemplate''), w)"
    unfolding normalizeItem_def Let_def t d f b using n by simp
  then have "normalizeItem w x =
     Inr (mk_item (js_get x ''id'') (js_get x ''text'') (js_get x ''bucket'') (js_get x ''done'')
           (js_get x ''createdAt'') (js_get x ''fromTemplate''), w)"
    by (simp only: tt)
  then show ?thesis using n by simp
qed

lemma map_world_fixed:
  "(\<And>x. x \<in> set xs \<Longrightarrow> f w x = Inr (x, w)) \<Longrightarrow> map_world f w xs = Inr (xs, w)"
  by (induction xs) simp_all

lemma map_world_set:
  "map_world f w xs = Inr (ys, w') \<Longrightarrow> y \<in> set ys \<Longrightarrow> \<exists>w1 x w2. f w1 x = Inr (y, w2)"
proof (induction xs arbitrary: w ys)
  case Nil
  then show ?case by simp
next
  case (Cons x xs)
  from Cons.prems(1) obtain z w1 zs where f: "f w x = Inr (z, w1)"
    and m: "map_world f w1 xs = Inr (zs, w')" and ys: "ys = z # zs"
    by (auto split: sum.splits)
  show ?case
  proof (cases "y = z")
    case True
    then show ?thesis using f by blast
  next
    case False
    then have "y \<in> set zs" using Cons.prems(2) ys by simp
    then show ?thesis using Cons.IH [OF m] by blast
  qed
qed

lemma normalizeDayItems_normalized:
  assumes "normalizeDayItems w L = Inr (ys, w')" and "y \<in> set ys"
  shows "normalized_item y"
proof -
  have "Array_isArray L" using assms by (auto simp: normalizeDayItems_def split: if_splits)
  then obtain xs ps where L: "L = Arr xs ps" by (cases L) simp_all
  from assms(1) obtain zs where
    m: "map_world normalizeItem w (filter (\<lambda>x. truthy x \<and> typeof x = ''object'') xs) = Inr (zs, w')"
    and ys: "ys = filter (\<lambda>y. truthy (js_get y ''text'')) zs"
    unfolding L by (auto simp: normalizeDayItems_Arr split: sum.splits)
  have t: "truthy (js_get y ''text'')" and z: "y \<in> set zs" using assms(2) ys by simp_all
  from map_world_set [OF m z] obtain w1 x w2 where "normalizeItem w1 x = Inr (y, w2)" by blast
  then show ?thesis using t by (rule normalizeItem_normalized)
qed

lemma normalized_item_kept:
  "normalized_item x \<Longrightarrow> truthy x \<and> typeof x = ''object'' \<and> truthy (js_get x ''text'')"
  by (metis mk_item_def normalized_item_def truthy.simps(7) typeof.simps(7))

lemma normalizeDayItems_fixed:
  assumes "\<And>x. x \<in> set xs \<Longrightarrow> normalized_item x"
  shows "normalizeDayItems w (Arr xs ps) = Inr (xs, w)"
proof -
  have a: "filter (\<lambda>x. truthy x \<and> typeof x = ''object'') xs = xs"
    using assms normalized_item_kept by (simp add: filter_id_conv)
  have b: "map_world normalizeItem w xs = Inr (xs, w)"
    using assms by (intro map_world_fixed normalizeItem_fixed)
  have c: "filter (\<lambda>x. truthy (js_get x ''text'')) xs = xs"
    using assms normalized_item_kept by (simp add: filter_id_conv)
  show ?thesis
    by (simp add: normalizeDayItems_def a b c)
qed

text \<open>
  C6. \<^verbatim>\<open>normalizeDayItems\<close> is idempotent. For every input, normalizing and then normalizing
  the result, at any later time and with any later random numbers, has the outcome of
  normalizing once: the same list, every field of every item as it was, or the same error
  when the first application throws. The second application reads neither the clock nor
  the random numbers.
\<close>

theorem normalizeDayItems_idempotent:
  "(case normalizeDayItems w L of
      Inl e \<Rightarrow> Inl e
    | Inr (ys, w1) \<Rightarrow> map_sum id fst (normalizeDayItems w' (Arr ys ps)))
     = map_sum id fst (normalizeDayItems w L)
   \<and> (\<forall>ys w1. normalizeDayItems w L = Inr (ys, w1) \<longrightarrow>
         normalizeDayItems w' (Arr ys ps) = Inr (ys, w'))"
proof -
  have again: "normalizeDayItems w' (Arr ys ps) = Inr (ys, w')"
    if "normalizeDayItems w L = Inr (ys, w1)" for ys w1
    using that by (intro normalizeDayItems_fixed) (rule normalizeDayItems_normalized)
  show ?thesis
  proof (cases "normalizeDayItems w L")
    case (Inl e)
    then show ?thesis by simp
  next
    case (Inr r)
    obtain ys w1 where r: "r = (ys, w1)" by (cases r)
    show ?thesis using again [of ys w1] Inr r by simp
  qed
qed

theorem normalizeDayItems_idempotent_witness:
  "map_sum id fst (normalizeDayItems demo_world
       (Arr [Obj [(''text'', Str '' A '')], Str ''x'', Obj [(''text'', Str '' '')]] []))
     = Inr [mk_item (Str ''rs-1e'') (Str ''A'') (Str ''morning'') (Bool False) (Num 1001) (Bool False)]
   \<and> normalizeDayItems stuck_world
        (Arr [mk_item (Str ''rs-1e'') (Str ''A'') (Str ''morning'') (Bool False) (Num 1001) (Bool False)] [])
     = Inr ([mk_item (Str ''rs-1e'') (Str ''A'') (Str ''morning'') (Bool False) (Num 1001) (Bool False)],
            stuck_world)"
proof -
  let ?L = "Arr [Obj [(''text'', Str '' A '')], Str ''x'', Obj [(''text'', Str '' '')]] []"
  let ?ys = "[mk_item (Str ''rs-1e'') (Str ''A'') (Str ''morning'') (Bool False) (Num 1001) (Bool False)]"
  have a: "normalizeDayItems demo_world ?L = Inr (?ys, demo_world\<lparr>ticks := 4, draws := 2\<rparr>)"
    by (simp add: normalizeDayItems_def normalizeItem_def js_get_def js_or_def js_trim_def is_space_def
      uid_def Date_now_def Math_random36_def demo_world_def int_to_radix_def nat_to_radix.simps
      digit_char_def mk_item_def)
  have "normalizeDayItems stuck_world (Arr ?ys []) = Inr (?ys, stuck_world)"
    by (rule normalizeDayItems_idempotent [where w = demo_world and L = ?L and w' = stuck_world
          and ps = "[]", THEN conjunct2, rule_format, OF a])
  then show ?thesis using a by simp
qed

section \<open>Template engine\<close>

lemma error_is_TypeError: "(e :: error) = TypeError"
  by (cases e) simp

lemma fresh_items_Cons:
  "fresh_items now w (e # es) =
     (mk_item (Str (fst (uid w))) (Str (snd e)) (Str (fst e)) (Bool False) (Num now) (Bool True)
        # fst (fresh_items now (snd (uid w)) es),
      snd (fresh_items now (snd (uid w)) es))"
  by (simp add: case_prod_beta)

lemma fresh_items_append:
  "fresh_items now w (xs @ ys) =
     (fst (fresh_items now w xs) @ fst (fresh_items now (snd (fresh_items now w xs)) ys),
      snd (fresh_items now (snd (fresh_items now w xs)) ys))"
  by (induction xs arbitrary: w) (simp_all add: fresh_items_Cons del: fresh_items.simps(2))

lemma template_loop_entries:
  "template_loop now b ts (acc, w) =
     (if \<forall>t \<in> set ts. \<not> isl (js_String (js_or t (Str [])))
      then Inr (acc @ fst (fresh_items now w
                     (filter (\<lambda>e. snd e \<noteq> []) (map (\<lambda>t. (b, entry_text t)) ts))),
                snd (fresh_items now w
                     (filter (\<lambda>e. snd e \<noteq> []) (map (\<lambda>t. (b, entry_text t)) ts))))
      else Inl TypeError)"
proof (induction ts arbitrary: acc w)
  case Nil
  then show ?case by simp
next
  case (Cons t ts)
  show ?case
  proof (cases "js_String (js_or t (Str []))")
    case (Inl e)
    then show ?thesis by (simp add: error_is_TypeError [of e])
  next
    case (Inr s)
    then have et: "entry_text t = js_trim s" by (simp add: entry_text_def)
    show ?thesis
    proof (cases "js_trim s = []")
      case True
      then show ?thesis using Inr et Cons.IH [of acc w] by simp
    next
      case False
      then show ?thesis
        using Inr et Cons.IH [of _ "snd (uid w)"]
        by (simp add: fresh_items_Cons case_prod_beta del: fresh_items.simps(2))
    qed
  qed
qed

lemma texts_of_entries:
  "filter (\<lambda>e. snd e \<noteq> []) (map (\<lambda>e. (fst e, entry_text (snd e))) (map (\<lambda>t. (b, t)) ts)) =
   filter (\<lambda>e. snd e \<noteq> []) (map (\<lambda>t. (b, entry_text t)) ts)"
  by (simp add: comp_def)

lemma entries_of_Cons:
  "entries_of templates (b # bs) = map (\<lambda>t. (b, t)) (template_list templates b) @ entries_of templates bs"
  by (simp add: entries_of_def)

lemma bucket_loop_Cons:
  "bucket_loop now templates (b # bs) acc =
     (case template_loop now b (template_list templates b) acc of
        Inl e \<Rightarrow> Inl e
      | Inr acc1 \<Rightarrow> bucket_loop now templates bs acc1)"
  by (simp add: template_list_def)

lemma bucket_loop_entries:
  "bucket_loop now templates bs (acc, w) =
     (if \<forall>e \<in> set (entries_of templates bs). \<not> isl (js_String (js_or (snd e) (Str [])))
      then Inr (acc @ fst (fresh_items now w
                  (filter (\<lambda>e. snd e \<noteq> [])
                     (map (\<lambda>e. (fst e, entry_text (snd e))) (entries_of templates bs)))),
                snd (fresh_items now w
                  (filter (\<lambda>e. snd e \<noteq> [])
                     (map (\<lambda>e. (fst e, entry_text (snd e))) (entries_of templates bs)))))
      else Inl TypeError)"
proof (induction bs arbitrary: acc w)
  case Nil
  then show ?case by (simp add: entries_of_def)
next
  case (Cons b bs)
  let ?l = "template_list templates b"
  let ?E = "filter (\<lambda>e. snd e \<noteq> []) (map (\<lambda>t. (b, entry_text t)) ?l)"
  show ?case
  proof (cases "\<forall>t \<in> set ?l. \<not> isl (js_String (js_or t (Str [])))")
    case True
    then have tl: "template_loop now b ?l (acc, w) =
        Inr (acc @ fst (fresh_items now w ?E), snd (fresh_items now w ?E))"
      by (simp add: template_loop_entries)
    have all: "(\<forall>e \<in> set (entries_of templates (b # bs)). \<not> isl (js_String (js_or (snd e) (Str [])))) \<longleftrightarrow>
        (\<forall>e \<in> set (entries_of templates bs). \<not> isl (js_String (js_or (snd e) (Str []))))"
      using True by (auto simp: entries_of_Cons)
    show ?thesis
      unfolding bucket_loop_Cons tl sum.case Cons.IH all
      by (simp only: entries_of_Cons map_append filter_append texts_of_entries fresh_items_append
            fst_conv snd_conv append_assoc)
  next
    case False
    then have tl: "template_loop now b ?l (acc, w) = Inl TypeError"
      by (simp add: template_loop_entries)
    from False obtain t where t: "t \<in> set ?l" "isl (js_String (js_or t (Str [])))"
      by blast
    then have "(b, t) \<in> set (entries_of templates (b # bs))"
      by (simp add: entries_of_Cons)
    with t(2) have "\<exists>e \<in> set (entries_of templates (b # bs)). isl (js_String (js_or (snd e) (Str [])))"
      by (intro bexI [of _ "(b, t)"]) simp_all
    then have "\<not> (\<forall>e \<in> set (entries_of templates (b # bs)). \<not> isl (js_String (js_or (snd e) (Str []))))"
      by blast
    then show ?thesis
      unfolding bucket_loop_Cons tl sum.case by simp
  qed
qed

lemma makeItems_is_expand:
  "makeItemsFromTemplates w templates =
     (if convertible templates then Inr (expand_spec w templates) else Inl TypeError)"
  unfolding makeItemsFromTemplates_def expand_spec_def Date_now_def Let_def split_conv
    bucket_loop_entries convertible_def template_entries_def all_entries_def BUCKETS_def
    list_all_iff
  by simp

lemma fresh_items_map:
  "map g (fst (fresh_items now w es)) =
   map (\<lambda>e. g (mk_item Undefined (Str (snd e)) (Str (fst e)) (Bool False) (Num now) (Bool True))) es"
  if "\<And>i t b d c f. g (mk_item i t b d c f) = g (mk_item Undefined t b d c f)"
proof (induction es arbitrary: w)
  case Nil
  then show ?case by simp
next
  case (Cons e es)
  then show ?case
    using that [of "Str (fst (uid w))"]
    by (simp add: fresh_items_Cons del: fresh_items.simps(2))
qed

lemma fresh_items_fields:
  "map (\<lambda>x. js_get x ''text'') (fst (fresh_items now w es)) = map (\<lambda>e. Str (snd e)) es"
  "map (\<lambda>x. js_get x ''bucket'') (fst (fresh_items now w es)) = map (\<lambda>e. Str (fst e)) es"
  "map (\<lambda>x. js_get x ''done'') (fst (fresh_items now w es)) = replicate (length es) (Bool False)"
  "map (\<lambda>x. js_get x ''createdAt'') (fst (fresh_items now w es)) = replicate (length es) (Num now)"
  "map (\<lambda>x. js_get x ''fromTemplate'') (fst (fresh_items now w es)) = replicate (length es) (Bool True)"
  by (simp_all add: fresh_items_map map_replicate_const)

lemma uid_nth:
  "fst (uid w) = nth_uid w 0" "nth_uid (snd (uid w)) j = nth_uid w (Suc j)"
  by (simp_all add: uid_def nth_uid_def Date_now_def Math_random36_def)

lemma fresh_items_ids:
  "map (\<lambda>x. js_get x ''id'') (fst (fresh_items now w es)) =
   map (\<lambda>j. Str (nth_uid w j)) [0..<length es]"
proof (induction es arbitrary: w)
  case Nil
  then show ?case by simp
next
  case (Cons e es)
  have "[0..<length (e # es)] = 0 # map Suc [0..<length es]"
    by (simp add: upt_conv_Cons map_Suc_upt del: upt_Suc)
  then show ?case
    by (simp add: fresh_items_Cons Cons.IH uid_nth comp_def del: fresh_items.simps(2) upt_Suc)
qed

lemma digit_char_not_dash: "digit_char d \<noteq> CHR ''-''"
proof -
  have "digit_char d \<in> set ''0123456789abcdefghijklmnopqrstuvwxyz''"
    unfolding digit_char_def by (rule nth_mem) simp
  then show ?thesis by auto
qed

lemma dash_notin_radix: "CHR ''-'' \<notin> set (nat_to_radix b n)"
proof (induction b n rule: nat_to_radix.induct)
  case (1 b n)
  show ?case
  proof (cases "b < 2 \<or> n < b")
    case True
    then show ?thesis
      using digit_char_not_dash [of n] by (subst nat_to_radix.simps) auto
  next
    case False
    then show ?thesis
      using 1 digit_char_not_dash [of "n mod b"] by (subst nat_to_radix.simps) auto
  qed
qed

lemma split_at_first:
  "x \<notin> set a \<Longrightarrow> x \<notin> set b \<Longrightarrow> a @ x # r = b @ x # s \<Longrightarrow> a = b \<and> r = s"
proof (induction a arbitrary: b)
  case Nil
  then show ?case by (cases b) auto
next
  case (Cons y a)
  then show ?case by (cases b) auto
qed

lemma nth_uid_random:
  assumes "0 \<le> sint (clock w (ticks w + i))" and "0 \<le> sint (clock w (ticks w + j))"
    and "nth_uid w i = nth_uid w j"
  shows "random w (draws w + i) = random w (draws w + j)"
proof -
  let ?a = "nat_to_radix 36 (nat (sint (clock w (ticks w + i))))"
  let ?b = "nat_to_radix 36 (nat (sint (clock w (ticks w + j))))"
  have "?a @ CHR ''-'' # random w (draws w + i) = ?b @ CHR ''-'' # random w (draws w + j)"
    using assms by (simp add: nth_uid_def int_to_radix_def)
  then show ?thesis
    using split_at_first [OF dash_notin_radix dash_notin_radix] by blast
qed

lemma nth_uids_distinct:
  assumes "inj_on (\<lambda>j. random w (draws w + j)) {..<n}"
    and "\<forall>j<n. 0 \<le> sint (clock w (ticks w + j))"
  shows "distinct (map (\<lambda>j. Str (nth_uid w j)) [0..<n])"
proof -
  have "inj_on (\<lambda>j. Str (nth_uid w j)) (set [0..<n])"
  proof (rule inj_onI)
    fix i j
    assume i: "i \<in> set [0..<n]" and j: "j \<in> set [0..<n]"
      and e: "Str (nth_uid w i) = Str (nth_uid w j)"
    have "random w (draws w + i) = random w (draws w + j)"
      using assms(2) i j e by (intro nth_uid_random) simp_all
    then show "i = j"
      using assms(1) i j by (simp add: inj_on_def)
  qed
  then show ?thesis by (simp add: distinct_map)
qed

text \<open>
  C7. For every templates value whose entries \<^verbatim>\<open>String\<close> converts (strings in particular),
  \<^verbatim>\<open>makeItemsFromTemplates\<close> returns the expansion as the specification words it: the items
  follow the entries of morning, then noon, then evening, each list in stored order, entries
  empty after trimming skipped; every item is not done, is from a template, and carries the
  one clock reading taken at the start; the \<open>j\<close>-th item has the id of the \<open>j\<close>-th call of
  \<^verbatim>\<open>uid()\<close> made after that reading. The ids of one expansion are pairwise distinct when the
  random digits drawn for them are (the clock not being negative); nothing else makes them
  so. For a templates value with an entry that \<^verbatim>\<open>String\<close> does not convert, the function
  throws a \<^verbatim>\<open>TypeError\<close> and returns no items.
\<close>

theorem makeItemsFromTemplates_order:
  "(convertible templates \<longrightarrow>
      (\<exists>ys w1. makeItemsFromTemplates w templates = Inr (ys, w1)
         \<and> (ys, w1) = expand_spec w templates
         \<and> map (\<lambda>x. js_get x ''bucket'') ys = map (\<lambda>e. Str (fst e)) (template_entries templates)
         \<and> map (\<lambda>x. js_get x ''text'') ys = map (\<lambda>e. Str (snd e)) (template_entries templates)
         \<and> map (\<lambda>x. js_get x ''done'') ys
             = replicate (length (template_entries templates)) (Bool False)
         \<and> map (\<lambda>x. js_get x ''fromTemplate'') ys
             = replicate (length (template_entries templates)) (Bool True)
         \<and> map (\<lambda>x. js_get x ''createdAt'') ys
             = replicate (length (template_entries templates)) (Num (clock w (ticks w)))
         \<and> map (\<lambda>x. js_get x ''id'') ys
             = map (\<lambda>j. Str (nth_uid (w\<lparr>ticks := Suc (ticks w)\<rparr>) j))
                 [0..<length (template_entries templates)]
         \<and> (inj_on (\<lambda>j. random w (draws w + j)) {..<length (template_entries templates)}
              \<and> (\<forall>j<length (template_entries templates). 0 \<le> sint (clock w (Suc (ticks w) + j)))
            \<longrightarrow> distinct (map (\<lambda>x. js_get x ''id'') ys))))
   \<and> (\<not> convertible templates \<longrightarrow> makeItemsFromTemplates w templates = Inl TypeError)"
proof (intro conjI impI)
  let ?w1 = "w\<lparr>ticks := Suc (ticks w)\<rparr>"
  let ?now = "clock w (ticks w)"
  let ?es = "template_entries templates"
  let ?ys = "fst (fresh_items ?now ?w1 ?es)"
  assume c: "convertible templates"
  have x: "expand_spec w templates = (?ys, snd (fresh_items ?now ?w1 ?es))"
    by (simp add: expand_spec_def Date_now_def)
  have u: "distinct (map (\<lambda>j. Str (nth_uid ?w1 j)) [0..<length ?es])"
    if "inj_on (\<lambda>j. random w (draws w + j)) {..<length ?es}"
      and "\<forall>j<length ?es. 0 \<le> sint (clock w (Suc (ticks w) + j))"
    using that by (intro nth_uids_distinct) simp_all
  show "\<exists>ys w1. makeItemsFromTemplates w templates = Inr (ys, w1)
         \<and> (ys, w1) = expand_spec w templates
         \<and> map (\<lambda>x. js_get x ''bucket'') ys = map (\<lambda>e. Str (fst e)) ?es
         \<and> map (\<lambda>x. js_get x ''text'') ys = map (\<lambda>e. Str (snd e)) ?es
         \<and> map (\<lambda>x. js_get x ''done'') ys = replicate (length ?es) (Bool False)
         \<and> map (\<lambda>x. js_get x ''fromTemplate'') ys = replicate (length ?es) (Bool True)
         \<and> map (\<lambda>x. js_get x ''createdAt'') ys = replicate (length ?es) (Num ?now)
         \<and> map (\<lambda>x. js_get x ''id'') ys = map (\<lambda>j. Str (nth_uid ?w1 j)) [0..<length ?es]
         \<and> (inj_on (\<lambda>j. random w (draws w + j)) {..<length ?es}
              \<and> (\<forall>j<length ?es. 0 \<le> sint (clock w (Suc (ticks w) + j)))
            \<longrightarrow> distinct (map (\<lambda>x. js_get x ''id'') ys))"
    apply (rule exI [of _ ?ys])
    apply (rule exI [of _ "snd (fresh_items ?now ?w1 ?es)"])
    apply (simp only: fresh_items_fields fresh_items_ids)
    using c u by (simp add: makeItems_is_expand x)
next
  assume "\<not> convertible templates"
  then show "makeItemsFromTemplates w templates = Inl TypeError"
    by (simp add: makeItems_is_expand)
qed

theorem makeItemsFromTemplates_order_witness:
  "convertible (Obj [(''evening'', Arr [Str ''C''] []), (''noon'', Arr [Str '' '', Str ''B''] []),
              (''morning'', Arr [Str ''A''] [])])
   \<and> map (\<lambda>x. js_get x ''text'')
     (fst (projr (makeItemsFromTemplates demo_world
        (Obj [(''evening'', Arr [Str ''C''] []), (''noon'', Arr [Str '' '', Str ''B''] []),
              (''morning'', Arr [Str ''A''] [])]))))
     = [Str ''A'', Str ''B'', Str ''C'']
   \<and> map (\<lambda>x. js_get x ''bucket'')
     (fst (projr (makeItemsFromTemplates demo_world
        (Obj [(''evening'', Arr [Str ''C''] []), (''noon'', Arr [Str '' '', Str ''B''] []),
              (''morning'', Arr [Str ''A''] [])]))))
     = [Str ''morning'', Str ''noon'', Str ''evening'']
   \<and> map (\<lambda>x. js_get x ''createdAt'')
     (fst (projr (makeItemsFromTemplates demo_world
        (Obj [(''evening'', Arr [Str ''C''] []), (''noon'', Arr [Str '' '', Str ''B''] []),
              (''morning'', Arr [Str ''A''] [])]))))
     = [Num 1000, Num 1000, Num 1000]
   \<and> distinct (map (\<lambda>x. js_get x ''id'')
     (fst (projr (makeItemsFromTemplates demo_world
        (Obj [(''evening'', Arr [Str ''C''] []), (''noon'', Arr [Str '' '', Str ''B''] []),
              (''morning'', Arr [Str ''A''] [])])))))
   \<and> \<not> convertible (Obj [(''morning'', Arr [Obj [(''toString'', Num 1)]] [])])
   \<and> makeItemsFromTemplates demo_world (Obj [(''morning'', Arr [Obj [(''toString'', Num 1)]] [])])
       = Inl TypeError"
proof -
  let ?T = "Obj [(''evening'', Arr [Str ''C''] []), (''noon'', Arr [Str '' '', Str ''B''] []),
              (''morning'', Arr [Str ''A''] [])]"
  let ?es = "[(''morning'', ''A''), (''noon'', ''B''), (''evening'', ''C'')]"
  have cv: "convertible ?T"
    by (simp add: convertible_def all_entries_def entries_of_def template_list_def js_or_def)
  have e: "template_entries ?T = ?es"
    by (simp add: template_entries_def all_entries_def entries_of_def template_list_def
        entry_text_def js_or_def js_trim_def is_space_def)
  have c: "clock demo_world (ticks demo_world) = 1000" by (simp add: demo_world_def)
  have "nat_to_radix 36 (50 + 0) = ''1e''" "nat_to_radix 36 (50 + Suc 0) = ''1f''"
    "nat_to_radix 36 (50 + Suc (Suc 0)) = ''1g''"
    by (simp_all add: nat_to_radix.simps digit_char_def)
  then have j: "inj_on (\<lambda>j. random demo_world (draws demo_world + j)) {..<length ?es}"
    by (simp add: demo_world_def inj_on_def lessThan_Suc)
  have n: "\<forall>j<length ?es. 0 \<le> sint (clock demo_world (Suc (ticks demo_world) + j))"
    by (simp add: demo_world_def numeral_3_eq_3 less_Suc_eq)
  have nc: "\<not> convertible (Obj [(''morning'', Arr [Obj [(''toString'', Num 1)]] [])])"
    by (simp add: convertible_def all_entries_def entries_of_def template_list_def js_or_def)
  from makeItemsFromTemplates_order [of ?T demo_world, THEN conjunct1, rule_format, OF cv,
      unfolded e c]
  obtain ys w1 where r: "makeItemsFromTemplates demo_world ?T = Inr (ys, w1)"
    "map (\<lambda>x. js_get x ''bucket'') ys = map (\<lambda>e. Str (fst e)) ?es"
    "map (\<lambda>x. js_get x ''text'') ys = map (\<lambda>e. Str (snd e)) ?es"
    "map (\<lambda>x. js_get x ''createdAt'') ys = replicate (length ?es) (Num 1000)"
    "inj_on (\<lambda>j. random demo_world (draws demo_world + j)) {..<length ?es}
      \<and> (\<forall>j<length ?es. 0 \<le> sint (clock demo_world (Suc (ticks demo_world) + j)))
      \<longrightarrow> distinct (map (\<lambda>x. js_get x ''id'') ys)"
    by blast
  have d: "distinct (map (\<lambda>x. js_get x ''id'') ys)"
    using r(5) j n by blast
  show ?thesis
    using cv nc r(2,3,4) d
      makeItemsFromTemplates_order [of "Obj [(''morning'', Arr [Obj [(''toString'', Num 1)]] [])]"
        demo_world, THEN conjunct2]
    by (simp add: r(1) numeral_3_eq_3)
qed

theorem makeItemsFromTemplates_counterexample:
  "map_sum id fst (makeItemsFromTemplates stuck_world (Obj [(''morning'', Arr [Str ''A'', Str ''B''] [])]))
     = Inr [mk_item (Str ''rs-1e'') (Str ''A'') (Str ''morning'') (Bool False) (Num 1000) (Bool True),
            mk_item (Str ''rs-1e'') (Str ''B'') (Str ''morning'') (Bool False) (Num 1000) (Bool True)]
   \<and> map_sum id fst
         (makeItemsFromTemplates demo_world (Obj [(''morning'', Arr [Obj [(''toString'', Num 1)]] [])]))
       = Inl TypeError"
  by code_simp

section \<open>The seven-day bound\<close>

lemma underscore_notin_radix: "CHR ''_'' \<notin> set (nat_to_radix b n)"
proof (induction b n rule: nat_to_radix.induct)
  case (1 b n)
  have dc: "digit_char m \<noteq> CHR ''_''" for m
  proof -
    have "digit_char m \<in> set ''0123456789abcdefghijklmnopqrstuvwxyz''"
      unfolding digit_char_def by (rule nth_mem) simp
    then show ?thesis by auto
  qed
  show ?case
  proof (cases "b < 2 \<or> n < b")
    case True
    then show ?thesis
      using dc [of n] by (subst nat_to_radix.simps) auto
  next
    case False
    then show ?thesis
      using 1 dc [of "n mod b"] by (subst nat_to_radix.simps) auto
  qed
qed

lemma underscore_notin_int: "CHR ''_'' \<notin> set (int_to_radix b n)"
  by (simp add: int_to_radix_def underscore_notin_radix)

lemma todayKey_not_proto: "todayKey d \<noteq> ''__proto__''"
proof -
  have "CHR ''_'' \<notin> set (todayKey d)"
    by (simp add: todayKey_def padStart2_def underscore_notin_int)
  moreover have "CHR ''_'' \<in> set ''__proto__''" by simp
  ultimately show ?thesis by metis
qed

lemma fold_update_distinct:
  "distinct (map fst acc) \<Longrightarrow>
   distinct (map fst (foldl (\<lambda>kept k. AList.update k (f k) kept) acc ks))"
  by (induction ks arbitrary: acc) (simp_all add: distinct_update)

lemma fold_update_length:
  "length (foldl (\<lambda>kept k. AList.update k (f k) kept) acc ks) \<le> length acc + length ks"
proof (induction ks arbitrary: acc)
  case Nil
  then show ?case by simp
next
  case (Cons k ks)
  have "length (AList.update k (f k) acc) \<le> Suc (length acc)"
    by (induction acc) auto
  then show ?case using Cons.IH [of "AList.update k (f k) acc"] by simp
qed

lemma keys_update: "fst ` set (AList.update k x d) = insert k (fst ` set d)"
  using dom_update [of k x d] by simp

lemma fold_update_keys:
  "fst ` set (foldl (\<lambda>kept k. AList.update k (f k) kept) acc ks) = fst ` set acc \<union> set ks"
  by (induction ks arbitrary: acc) (simp_all add: keys_update)

lemma pruneHistory_within:
  "distinct (Object_keys (as_value (pruneHistory v 7)))"
  "length (Object_keys (as_value (pruneHistory v 7))) \<le> 7"
  "''__proto__'' \<notin> set (Object_keys (as_value (pruneHistory v 7)))"
proof -
  let ?top = "slice0 7 (js_sort newest_first (Object_keys (js_or v (Obj []))))"
  let ?ks = "filter (\<lambda>k. k \<noteq> ''__proto__'') ?top"
  have o: "own (pruneHistory v 7) = foldl (\<lambda>kept k. AList.update k (js_get v k) kept) [] ?ks"
    by (simp add: pruneHistory_def Let_def own_fold_set_prop)
  have l1: "length ?ks \<le> length ?top" by (rule length_filter_le)
  have l2: "length ?top \<le> 7" by (simp add: slice0_7)
  have l3: "length (foldl (\<lambda>kept k. AList.update k (js_get v k) kept) [] ?ks) \<le> length ?ks"
    using fold_update_length [of "js_get v" "[]" ?ks] by simp
  have "length (foldl (\<lambda>kept k. AList.update k (js_get v k) kept) [] ?ks) \<le> 7"
    using l1 l2 l3 by linarith
  then show "length (Object_keys (as_value (pruneHistory v 7))) \<le> 7"
    by (simp only: as_value_def o Object_keys_Obj length_map)
  show "distinct (Object_keys (as_value (pruneHistory v 7)))"
    by (simp add: as_value_def o fold_update_distinct)
  have "fst ` set (own (pruneHistory v 7)) = set ?ks"
    unfolding o by (simp add: fold_update_keys)
  then show "''__proto__'' \<notin> set (Object_keys (as_value (pruneHistory v 7)))"
    by (simp add: as_value_def)
qed

lemma js_get_update_same [simp]: "js_get (Obj (AList.update k x kvs)) k = x"
  by (simp add: js_get_Obj update_conv')

lemma js_get_own_props: "k \<noteq> ''length'' \<Longrightarrow> js_get (Obj (own_props v)) k = js_get v k"
  unfolding js_get_def by (cases v) (simp_all split: option.splits del: map_of_append)

lemma own_props_js_or: "own_props (js_or v (Obj [])) = own_props v"
  by (cases v) (simp_all add: js_or_def)

lemma truthy_get_in_keys: "truthy (js_get (Obj d) k) \<Longrightarrow> k \<in> set (map fst d)"
  by (auto simp: js_get_Obj split: option.splits dest: map_of_SomeD intro: rev_image_eqI)

lemma fresh_items_world:
  "quota_ok (snd (fresh_items now w es)) = quota_ok w"
  "writes (snd (fresh_items now w es)) = writes w"
  by (induction es arbitrary: w)
    (simp_all add: fresh_items_Cons uid_def Date_now_def Math_random36_def del: fresh_items.simps(2))

lemma makeItems_world:
  assumes "makeItemsFromTemplates w T = Inr (its, w')"
  shows "quota_ok w' = quota_ok w" "writes w' = writes w"
proof -
  have "(its, w') = expand_spec w T"
    using assms by (simp add: makeItems_is_expand split: if_splits)
  then have "w' = snd (fresh_items (clock w (ticks w)) (w\<lparr>ticks := Suc (ticks w)\<rparr>) (template_entries T))"
    by (simp add: expand_spec_def Date_now_def) (metis snd_conv)
  then show "quota_ok w' = quota_ok w" "writes w' = writes w"
    by (simp_all add: fresh_items_world)
qed

text \<open>What the seeding updater returns: the days are pruned from the previous days with the
  key \<open>tk\<close> among them.\<close>

lemma seed_day_shape:
  assumes "seed_day tk w prev = Inr (next, proto, w1)"
  obtains D1 where
    "js_get next ''days'' = as_value (pruneHistory (Obj D1) 7)"
    "proto = prototype (pruneHistory (Obj D1) 7)"
    "set (map fst D1) = set (tk # day_keys prev)"
    "distinct (day_keys prev) \<Longrightarrow> distinct (map fst D1)"
    "quota_ok w1 = quota_ok w" "writes w1 = writes w"
    "\<And>k. k \<noteq> ''days'' \<Longrightarrow> k \<noteq> ''length'' \<Longrightarrow> js_get next k = js_get prev k"
proof -
  let ?D = "own_props (js_get prev ''days'')"
  let ?next0 = "spread_with prev ''days'' (Obj ?D)"
  have other: "js_get (assign ?next0 ''days'' v) k = js_get prev k"
    if "k \<noteq> ''days''" "k \<noteq> ''length''" for k v
    using that
    by (simp add: spread_with_def js_get_Obj [of "AList.update _ _ _"] update_conv'
        js_get_own_props [symmetric, of k prev] js_get_Obj [of "own_props prev"])
  show thesis
  proof (cases "truthy (js_get (Obj ?D) tk)")
    case True
    then have "tk \<in> set (map fst ?D)" by (rule truthy_get_in_keys)
    then have s: "set (map fst ?D) = set (tk # day_keys prev)"
      by (auto simp: day_keys_def Object_keys_def)
    from assms True have e: "next = assign ?next0 ''days'' (as_value (pruneHistory (Obj ?D) 7))"
      "proto = prototype (pruneHistory (Obj ?D) 7)" "w1 = w"
      by (simp_all add: seed_day_def Let_def own_props_js_or)
    show ?thesis
    proof (rule that [of ?D])
      show "js_get next ''days'' = as_value (pruneHistory (Obj ?D) 7)"
        by (simp add: e spread_with_def)
      show "proto = prototype (pruneHistory (Obj ?D) 7)" by (rule e)
      show "set (map fst ?D) = set (tk # day_keys prev)" by (rule s)
      show "distinct (day_keys prev) \<Longrightarrow> distinct (map fst ?D)"
        by (simp add: day_keys_def Object_keys_def)
      show "quota_ok w1 = quota_ok w" "writes w1 = writes w" by (simp_all add: e)
      show "js_get next k = js_get prev k" if "k \<noteq> ''days''" "k \<noteq> ''length''" for k
        unfolding e using that by (rule other)
    qed
  next
    case False
    from assms False obtain its where
      m: "makeItemsFromTemplates w (js_get ?next0 ''templates'') = Inr (its, w1)"
      and e: "next = assign ?next0 ''days''
          (as_value (pruneHistory (Obj (AList.update tk (Arr its []) ?D)) 7))"
        "proto = prototype (pruneHistory (Obj (AList.update tk (Arr its []) ?D)) 7)"
      by (auto simp: seed_day_def Let_def own_props_js_or split: sum.splits)
    show ?thesis
    proof (rule that [of "AList.update tk (Arr its []) ?D"])
      show "js_get next ''days'' = as_value (pruneHistory (Obj (AList.update tk (Arr its []) ?D)) 7)"
        by (simp add: e spread_with_def)
      show "proto = prototype (pruneHistory (Obj (AList.update tk (Arr its []) ?D)) 7)" by (rule e)
      show "set (map fst (AList.update tk (Arr its []) ?D)) = set (tk # day_keys prev)"
        by (simp add: keys_update day_keys_def Object_keys_def)
      show "distinct (day_keys prev) \<Longrightarrow> distinct (map fst (AList.update tk (Arr its []) ?D))"
        by (simp add: day_keys_def Object_keys_def distinct_update)
      show "quota_ok w1 = quota_ok w" "writes w1 = writes w"
        using makeItems_world [OF m] by simp_all
      show "js_get next k = js_get prev k" if "k \<noteq> ''days''" "k \<noteq> ''length''" for k
        unfolding e using that by (rule other)
    qed
  qed
qed

lemma pruned_keys:
  assumes "distinct (map fst D1)" and "set (map fst D1) = set ks"
  shows "\<exists>top. newest_of 7 ks top
     \<and> Object_keys (as_value (pruneHistory (Obj D1) 7)) = filter (\<lambda>k. k \<noteq> ''__proto__'') top"
  using assms keys_pruneHistory [of D1] newest_of_take [of "map fst D1" ks] by blast

lemma pruned_keys_plain:
  assumes "distinct (map fst D1)" and "set (map fst D1) = set ks" and "''__proto__'' \<notin> set ks"
  shows "newest_of 7 ks (Object_keys (as_value (pruneHistory (Obj D1) 7)))"
proof -
  from pruned_keys [OF assms(1,2)] obtain top where
    t: "newest_of 7 ks top"
      "Object_keys (as_value (pruneHistory (Obj D1) 7)) = filter (\<lambda>k. k \<noteq> ''__proto__'') top"
    by blast
  have "''__proto__'' \<notin> set top" using t(1) assms(3) by (auto simp: newest_of_def)
  then have "filter (\<lambda>k. k \<noteq> ''__proto__'') top = top" by (rule filter_id_notin)
  then show ?thesis using t by simp
qed

lemma seed_day_within:
  assumes "seed_day tk w prev = Inr (next, proto, w1)"
  shows "within_week next" "''__proto__'' \<notin> set (day_keys next)"
  using seed_day_shape [OF assms] pruneHistory_within
  by (metis day_keys_def within_week_def)+

lemma seed_day_keys:
  assumes "seed_day tk w prev = Inr (next, proto, w1)" and "distinct (day_keys prev)"
  shows "\<exists>top. newest_of 7 (tk # day_keys prev) top
     \<and> day_keys next = filter (\<lambda>k. k \<noteq> ''__proto__'') top"
proof -
  from seed_day_shape [OF assms(1)] obtain D1 where
    d: "js_get next ''days'' = as_value (pruneHistory (Obj D1) 7)"
      "set (map fst D1) = set (tk # day_keys prev)"
      "distinct (day_keys prev) \<Longrightarrow> distinct (map fst D1)"
    by metis
  show ?thesis
    unfolding day_keys_def [of "next"] d(1)
    using d(3) [OF assms(2)] d(2) by (rule pruned_keys)
qed

lemma seed_day_newest:
  assumes "seed_day tk w prev = Inr (next, proto, w1)" and "distinct (day_keys prev)"
    and "''__proto__'' \<notin> set (day_keys prev)" and "tk \<noteq> ''__proto__''"
  shows "newest_of 7 (tk # day_keys prev) (day_keys next)"
proof -
  from seed_day_shape [OF assms(1)] obtain D1 where
    d: "js_get next ''days'' = as_value (pruneHistory (Obj D1) 7)"
      "set (map fst D1) = set (tk # day_keys prev)"
      "distinct (day_keys prev) \<Longrightarrow> distinct (map fst D1)"
    by metis
  have "''__proto__'' \<notin> set (tk # day_keys prev)" using assms(3,4) by simp
  with d(3) [OF assms(2)] d(2) show ?thesis
    unfolding day_keys_def [of "next"] d(1) by (rule pruned_keys_plain)
qed

lemma write_back_days:
  "js_get (fst (write_back dk its prev)) ''days'' =
     as_value (pruneHistory (Obj (AList.update dk (Arr its []) (own_props (js_get prev ''days'')))) 7)"
  by (simp add: write_back_def Let_def spread_with_def [of "js_or _ _"] own_props_js_or)

lemma write_back_within:
  "within_week (fst (write_back dk its prev))"
  "''__proto__'' \<notin> set (day_keys (fst (write_back dk its prev)))"
  unfolding within_week_def day_keys_def write_back_days by (simp_all add: pruneHistory_within)

lemma write_back_newest:
  assumes "distinct (day_keys prev)" and "''__proto__'' \<notin> set (day_keys prev)"
    and "dk \<noteq> ''__proto__''"
  shows "newest_of 7 (dk # day_keys prev) (day_keys (fst (write_back dk its prev)))"
proof -
  let ?D = "own_props (js_get prev ''days'')"
  have d1: "distinct (map fst (AList.update dk (Arr its []) ?D))"
    using assms(1) by (simp add: distinct_update day_keys_def Object_keys_def)
  have s: "set (map fst (AList.update dk (Arr its []) ?D)) = set (dk # day_keys prev)"
    by (simp add: keys_update day_keys_def Object_keys_def)
  have "''__proto__'' \<notin> set (dk # day_keys prev)" using assms(2,3) by simp
  with d1 s show ?thesis
    unfolding day_keys_def [of "fst _"] write_back_days by (rule pruned_keys_plain)
qed

lemma days_spread_templates: "js_get (spread_with prev ''templates'' t) ''days'' = js_get prev ''days''"
  by (simp add: js_get_spread_with_other js_get_own_props)

lemma saved_set_store_saving:
  "saved (set_store_saving next st) = saved_after st next"
  by (simp add: set_store_saving_def saveStore_def Let_def saved_after_def)

lemma saved_after_cong:
  "quota_ok (env st1) = quota_ok (env st) \<Longrightarrow> writes (env st1) = writes (env st) \<Longrightarrow>
   saved st1 = saved st \<Longrightarrow> saved_after st1 doc = saved_after st doc"
  by (simp add: saved_after_def)

lemma set_saved_after: "set (saved_after st doc) \<subseteq> insert doc (set (saved st))"
  by (auto simp: saved_after_def)

lemma template_update_shape:
  "addTemplateItem b t st = Inr st' \<Longrightarrow> js_trim t \<noteq> [] \<Longrightarrow>
     \<exists>T. st' = set_store_saving (spread_with (store st) ''templates'' T) st"
  "removeTemplateItem b i st = Inr st' \<Longrightarrow>
     \<exists>T. st' = set_store_saving (spread_with (store st) ''templates'' T) st"
  by (auto simp: addTemplateItem_def removeTemplateItem_def Let_def split: sum.splits if_splits)

lemma template_update_days:
  assumes "st' = set_store_saving (spread_with (store st) ''templates'' T) st"
  shows "day_keys (store st') = day_keys (store st)" "saved st' = saved_after st (store st')"
    "dateKey st' = dateKey st"
  unfolding assms
  by (simp_all add: day_keys_def days_spread_templates set_store_saving_def
      saveStore_def Let_def saved_after_def)

lemma week_invariant_set_store_saving:
  assumes "within_week next" and "''__proto__'' \<notin> set (day_keys next)"
    and "\<forall>doc \<in> set (saved st). within_week doc" and "dateKey st \<noteq> ''__proto__''"
  shows "week_invariant (set_store_saving next st)"
proof -
  have "\<forall>doc \<in> set (saved (set_store_saving next st)). within_week doc"
    unfolding saved_set_store_saving using set_saved_after [of st "next"] assms(1,3) by auto
  moreover have "dateKey (set_store_saving next st) = dateKey st"
    by (simp add: set_store_saving_def saveStore_def Let_def)
  ultimately show ?thesis
    using assms(1,2,4) by (simp add: week_invariant_def)
qed

lemma mounted_shape:
  assumes "mounted JSON_parse raw d w = Inr st"
  obtains s "next" proto w1 where
    "initial_store JSON_parse raw = Inr s"
    "seed_day (todayKey d) w s = Inr (next, proto, w1)"
    "st = set_store_saving next
           \<lparr>tab = ''today'', store = s, dateKey = todayKey d, items = [], env = w1, saved = [],
            days_proto = proto\<rparr>"
  using assms
  by (auto simp: mounted_def initial_effect_def Let_def split: sum.splits)

lemma rollover_poll_shape:
  assumes "rollover_poll d st = Inr st'" and "dateKey st \<noteq> todayKey d"
  obtains "next" proto w1 where
    "seed_day (todayKey d) (env st) (store st) = Inr (next, proto, w1)"
    "st' = set_store_saving next
            (st\<lparr>env := w1, tab := ''today'', dateKey := todayKey d, days_proto := proto\<rparr>)"
  using assms
  by (auto simp: rollover_poll_def Let_def split: sum.splits)

lemma persist_effect_shape:
  "persist_effect st =
     set_store_saving (fst (write_back (dateKey st) (items st) (store st)))
       (st\<lparr>days_proto := snd (write_back (dateKey st) (items st) (store st))\<rparr>)"
  by (simp add: persist_effect_def persist_effect_of_def case_prod_beta)

lemma reachable_week_invariant: "reachable st \<Longrightarrow> week_invariant st"
proof (induction rule: reachable.induct)
  case (mount JSON_parse raw d w st)
  from mounted_shape [OF mount] obtain s "next" proto w1 where
    m: "seed_day (todayKey d) w s = Inr (next, proto, w1)"
      "st = set_store_saving next
           \<lparr>tab = ''today'', store = s, dateKey = todayKey d, items = [], env = w1, saved = [],
            days_proto = proto\<rparr>"
    by metis
  show ?case
    unfolding m(2)
    by (rule week_invariant_set_store_saving)
      (simp_all add: seed_day_within [OF m(1)] todayKey_not_proto)
next
  case (view st k d t its c n r m)
  then have "k \<noteq> ''__proto__''"
    using todayKey_not_proto [of d] by (auto simp: week_invariant_def day_keys_def)
  then show ?case using view.IH by (simp add: week_invariant_def)
next
  case (sync st st')
  from sync.hyps(2) have "store st' = store st" "saved st' = saved st" "dateKey st' = dateKey st"
    by (auto simp: sync_effect_def split: sum.splits)
  then show ?case using sync.IH by (simp add: week_invariant_def)
next
  case (persist st)
  show ?case
    unfolding persist_effect_shape
    by (rule week_invariant_set_store_saving)
      (use persist.IH in \<open>simp_all add: write_back_within week_invariant_def\<close>)
next
  case (poll st d st')
  show ?case
  proof (cases "dateKey st = todayKey d")
    case True
    then show ?thesis using poll by (simp add: rollover_poll_def)
  next
    case False
    from rollover_poll_shape [OF poll.hyps(2) False] obtain "next" proto w1 where
      m: "seed_day (todayKey d) (env st) (store st) = Inr (next, proto, w1)"
        "st' = set_store_saving next
            (st\<lparr>env := w1, tab := ''today'', dateKey := todayKey d, days_proto := proto\<rparr>)"
      by metis
    show ?thesis
      unfolding m(2)
      by (rule week_invariant_set_store_saving)
        (use poll.IH in \<open>simp_all add: seed_day_within [OF m(1)] todayKey_not_proto week_invariant_def\<close>)
  qed
next
  case (add_template st b t st')
  show ?case
  proof (cases "js_trim t = []")
    case True
    then show ?thesis using add_template by (simp add: addTemplateItem_def)
  next
    case False
    from template_update_shape(1) [OF add_template.hyps(3) False] obtain T where
      e: "st' = set_store_saving (spread_with (store st) ''templates'' T) st" by blast
    show ?thesis
      unfolding e
      by (rule week_invariant_set_store_saving)
        (use add_template.IH in
          \<open>simp_all add: week_invariant_def within_week_def day_keys_def days_spread_templates\<close>)
  qed
next
  case (remove_template st b i st')
  from template_update_shape(2) [OF remove_template.hyps(3)] obtain T where
    e: "st' = set_store_saving (spread_with (store st) ''templates'' T) st" by blast
  show ?case
    unfolding e
    by (rule week_invariant_set_store_saving)
      (use remove_template.IH in
        \<open>simp_all add: week_invariant_def within_week_def day_keys_def days_spread_templates\<close>)
qed




section \<open>Rollover poll\<close>

lemma todayKey_not_length: "todayKey d \<noteq> ''length''"
proof -
  have "CHR ''-'' \<in> set (todayKey d)" by (simp add: todayKey_def)
  moreover have "CHR ''-'' \<notin> set ''length''" by simp
  ultimately show ?thesis by metis
qed

lemma pruneHistory_value:
  assumes "distinct (map fst d)" and "k \<in> set (Object_keys (as_value (pruneHistory (Obj d) 7)))"
  shows "js_get (as_value (pruneHistory (Obj d) 7)) k = js_get (Obj d) k"
  using assms(2) unfolding keys_pruneHistory [OF assms(1)]
  by (simp add: as_value_def own_pruneHistory [OF assms(1)] slice0_7 js_get_Obj [of "map _ _"]
      map_of_tabulate)

lemma seed_day_unfold:
  assumes "tk \<noteq> ''length''"
  shows "seed_day tk w prev =
     (if truthy (js_get (js_get prev ''days'') tk)
      then Inr (assign (spread_with prev ''days'' (Obj (own_props (js_get prev ''days'')))) ''days''
                  (as_value (pruneHistory (Obj (own_props (js_get prev ''days''))) 7)),
                prototype (pruneHistory (Obj (own_props (js_get prev ''days''))) 7), w)
      else case makeItemsFromTemplates w (js_get prev ''templates'') of
             Inl e \<Rightarrow> Inl e
           | Inr (its, w') \<Rightarrow>
               Inr (assign (spread_with prev ''days'' (Obj (own_props (js_get prev ''days'')))) ''days''
                      (as_value (pruneHistory
                         (Obj (AList.update tk (Arr its []) (own_props (js_get prev ''days'')))) 7)),
                    prototype (pruneHistory
                         (Obj (AList.update tk (Arr its []) (own_props (js_get prev ''days'')))) 7),
                    w'))"
proof -
  have t: "js_get (spread_with prev ''days'' x) ''templates'' = js_get prev ''templates''" for x
    by (simp add: js_get_spread_with_other js_get_own_props)
  show ?thesis
    using assms
    by (simp add: seed_day_def Let_def own_props_js_or js_get_own_props t split: sum.splits)
qed

lemma seed_day_fails:
  assumes "tk \<noteq> ''length''"
  shows "isl (seed_day tk w prev) \<longleftrightarrow>
     \<not> truthy (js_get (js_get prev ''days'') tk) \<and> \<not> convertible (js_get prev ''templates'')"
  unfolding seed_day_unfold [OF assms] makeItems_is_expand
  by (simp add: case_prod_beta)

lemma seed_day_record:
  assumes "seed_day tk w prev = Inr (next, proto, w1)" and "tk \<noteq> ''length''"
    and "distinct (day_keys prev)" and "tk \<in> set (day_keys next)"
  shows "js_get (js_get next ''days'') tk =
     (if truthy (js_get (js_get prev ''days'') tk) then js_get (js_get prev ''days'') tk
      else Arr (fst (projr (makeItemsFromTemplates w (js_get prev ''templates'')))) [])"
proof -
  let ?D = "own_props (js_get prev ''days'')"
  have d: "distinct (map fst ?D)" using assms(3) by (simp add: day_keys_def Object_keys_def)
  show ?thesis
  proof (cases "truthy (js_get (js_get prev ''days'') tk)")
    case True
    with assms(1) have n: "js_get next ''days'' = as_value (pruneHistory (Obj ?D) 7)"
      unfolding seed_day_unfold [OF assms(2)] by (auto simp: spread_with_def)
    show ?thesis
      using assms(4) True unfolding day_keys_def n
      by (simp add: pruneHistory_value [OF d] js_get_own_props [OF assms(2)])
  next
    case False
    with assms(1) obtain its where
      m: "makeItemsFromTemplates w (js_get prev ''templates'') = Inr (its, w1)"
      and n: "js_get next ''days'' = as_value (pruneHistory (Obj (AList.update tk (Arr its []) ?D)) 7)"
      unfolding seed_day_unfold [OF assms(2)] by (auto simp: spread_with_def split: sum.splits)
    have d1: "distinct (map fst (AList.update tk (Arr its []) ?D))"
      using d by (simp add: distinct_update)
    show ?thesis
      using assms(4) False unfolding day_keys_def n
      by (simp add: pruneHistory_value [OF d1] m)
  qed
qed

lemma seed_day_templates:
  assumes "seed_day tk w prev = Inr (next, proto, w1)"
  shows "js_get next ''templates'' = js_get prev ''templates''"
proof -
  have "js_get next k = js_get prev k" if "k \<noteq> ''days''" "k \<noteq> ''length''" for k
    by (rule seed_day_shape [OF assms]) (use that in blast)
  then show ?thesis by simp
qed

lemma reachable_view_history_day:
  assumes "reachable st" and "k \<in> set (day_keys (store st))" and "view_history_day k st = Inr st'"
  shows "reachable st'"
proof -
  have o: "openHistoryDay k st =
      st\<lparr>tab := ''today'', dateKey := k, items := items st,
         env := (env st)\<lparr>clock := clock (env st), ticks := ticks (env st),
                          random := random (env st), draws := draws (env st)\<rparr>\<rparr>"
    by (simp add: openHistoryDay_def)
  have r: "reachable (openHistoryDay k st)"
    unfolding o using assms(1,2) by (intro reachable.view) (simp_all add: day_keys_def)
  show ?thesis
  proof (cases "dateKey (openHistoryDay k st) = dateKey st")
    case True
    then have "st' = openHistoryDay k st"
      using assms(3) by (simp add: view_history_day_def effects_after_def)
    then show ?thesis using r by simp
  next
    case False
    then obtain st1 where s: "sync_effect (openHistoryDay k st) = Inr st1" "st' = persist_effect st1"
      using assms(3) by (auto simp: view_history_day_def effects_after_def split: sum.splits)
    have "reachable st1" using r s(1) by (rule reachable.sync)
    then show ?thesis unfolding s(2) by (rule reachable.persist)
  qed
qed




section \<open>Viewing a history day\<close>

lemma normalizeItem_world:
  assumes "normalizeItem w x = Inr (y, w')"
  shows "quota_ok w' = quota_ok w \<and> writes w' = writes w"
  using assms
  by (auto simp: normalizeItem_def Let_def case_prod_beta uid_def Date_now_def Math_random36_def
      split: sum.splits if_splits)

lemma map_world_keeps:
  assumes "\<And>w x y w'. f w x = Inr (y, w') \<Longrightarrow> P w' = P w"
    and "map_world f w xs = Inr (ys, w')"
  shows "P w' = P w"
  using assms(2)
proof (induction xs arbitrary: w ys)
  case Nil
  then show ?case by simp
next
  case (Cons x xs)
  from Cons.prems obtain y w1 zs where f: "f w x = Inr (y, w1)"
    and m: "map_world f w1 xs = Inr (zs, w')"
    by (auto split: sum.splits)
  show ?case using assms(1) [OF f] Cons.IH [OF m] by simp
qed

lemma normalizeDayItems_world:
  assumes "normalizeDayItems w v = Inr (its, w')"
  shows "quota_ok w' = quota_ok w" "writes w' = writes w"
proof -
  have "quota_ok w' = quota_ok w \<and> writes w' = writes w"
  proof (cases "Array_isArray v")
    case False
    then show ?thesis using assms by (simp add: normalizeDayItems_def)
  next
    case True
    with assms obtain zs where
      m: "map_world normalizeItem w
            (filter (\<lambda>x. truthy x \<and> typeof x = ''object'') (array_elems v)) = Inr (zs, w')"
      by (auto simp: normalizeDayItems_def split: sum.splits)
    have "(quota_ok w', writes w') = (quota_ok w, writes w)"
      by (rule map_world_keeps [where P = "\<lambda>w. (quota_ok w, writes w)", OF _ m])
        (simp add: normalizeItem_world)
    then show ?thesis by simp
  qed
  then show "quota_ok w' = quota_ok w" "writes w' = writes w" by simp_all
qed

lemma read_day_own:
  assumes "k \<in> set (day_keys (store st))"
  shows "read_day st k = js_get (js_get (store st) ''days'') k"
proof -
  from assms have "map_of (own_props (js_get (store st) ''days'')) k \<noteq> None"
    by (simp add: day_keys_def Object_keys_def map_of_eq_None_iff)
  then show ?thesis by (auto simp: read_day_def js_get_def [of _ k])
qed

lemma view_history_day_unfold:
  assumes "k \<in> set (day_keys (store st))" and "k \<noteq> dateKey st"
  shows "view_history_day k st =
     (case normalizeDayItems (env st) (js_get (js_get (store st) ''days'') k) of
        Inl e \<Rightarrow> Inl e
      | Inr (its, w) \<Rightarrow>
          Inr (persist_effect (st\<lparr>dateKey := k, tab := ''today'', items := its, env := w\<rparr>)))"
proof -
  have "read_day (openHistoryDay k st) k = js_get (js_get (store st) ''days'') k"
    using read_day_own [of k "openHistoryDay k st"] assms(1) by (simp add: openHistoryDay_def)
  then show ?thesis
    using assms(2)
    by (simp add: view_history_day_def effects_after_def sync_effect_def openHistoryDay_def
        split: sum.splits)
qed

lemma js_get_update_other: "k' \<noteq> k \<Longrightarrow> js_get (Obj (AList.update k x d)) k' = js_get (Obj d) k'"
  by (simp add: js_get_Obj update_conv')

lemma js_get_own_key: "k \<in> fst ` set (own_props v) \<Longrightarrow> js_get (Obj (own_props v)) k = js_get v k"
proof -
  assume "k \<in> fst ` set (own_props v)"
  then have "map_of (own_props v) k \<noteq> None" by (simp add: map_of_eq_None_iff)
  then show ?thesis by (auto simp: js_get_def)
qed

lemma length_update_existing: "k \<in> fst ` set d \<Longrightarrow> length (AList.update k x d) = length d"
  by (induction d) auto

lemma write_back_existing_day:
  assumes "within_week prev" and "''__proto__'' \<notin> set (day_keys prev)"
    and "k \<in> set (day_keys prev)"
  shows "set (day_keys (fst (write_back k its prev))) = set (day_keys prev)"
    and "k' \<in> set (day_keys prev) \<Longrightarrow>
      js_get (js_get (fst (write_back k its prev)) ''days'') k' =
        (if k' = k then Arr its [] else js_get (js_get prev ''days'') k')"
proof -
  let ?D = "own_props (js_get prev ''days'')"
  let ?D1 = "AList.update k (Arr its []) ?D"
  have d: "distinct (map fst ?D)" "length ?D \<le> 7"
    using assms(1) by (simp_all add: within_week_def day_keys_def Object_keys_def)
  have k: "k \<in> fst ` set ?D"
    using assms(3) by (simp add: day_keys_def Object_keys_def)
  have d1: "distinct (map fst ?D1)" using d(1) by (simp add: distinct_update)
  have s1: "set (map fst ?D1) = set (day_keys prev)"
    using k by (auto simp: keys_update day_keys_def Object_keys_def)
  have l1: "length (js_sort newest_first (map fst ?D1)) \<le> 7"
    using d(2) k by (simp add: length_js_sort length_update_existing)
  have np: "''__proto__'' \<notin> set (js_sort newest_first (map fst ?D1))"
    using assms(2) s1 by (simp only: set_js_sort) simp
  have keys: "Object_keys (as_value (pruneHistory (Obj ?D1) 7)) = js_sort newest_first (map fst ?D1)"
    unfolding keys_pruneHistory [OF d1] using l1 np by (simp add: filter_id_notin)
  show a: "set (day_keys (fst (write_back k its prev))) = set (day_keys prev)"
    unfolding day_keys_def [of "fst _"] write_back_days keys using s1 by (simp only: set_js_sort)
  assume k': "k' \<in> set (day_keys prev)"
  then have "k' \<in> set (Object_keys (as_value (pruneHistory (Obj ?D1) 7)))"
    using a by (simp add: day_keys_def [of "fst _"] write_back_days)
  then have "js_get (as_value (pruneHistory (Obj ?D1) 7)) k' = js_get (Obj ?D1) k'"
    by (rule pruneHistory_value [OF d1])
  also have "\<dots> = (if k' = k then Arr its [] else js_get (js_get prev ''days'') k')"
    using k' by (simp add: js_get_update_other js_get_own_key day_keys_def Object_keys_def)
  finally show "js_get (js_get (fst (write_back k its prev)) ''days'') k' =
        (if k' = k then Arr its [] else js_get (js_get prev ''days'') k')"
    by (simp only: write_back_days)
qed

text \<open>
  C2 (as amended). \<^verbatim>\<open>openHistoryDay(k)\<close> sets \<^verbatim>\<open>dateKey\<close> to \<open>k\<close> without seeding, and touches
  neither the store nor storage. The effects that React then runs for the new key normalize
  the stored record \<open>days[k]\<close>. When the normalization returns, they write its result back
  to \<open>days[k]\<close> and save the document once more, when the write succeeds: the stored record
  is replaced by its normalization, which is the record itself when all its items already
  are in normalized form; the days stay the same and the records of the other days are
  unchanged. When the normalization throws, on an item whose text does not convert to a
  string, the effect throws and nothing is written.
\<close>

theorem viewing_history_rewrites_normalized:
  assumes "reachable st" and "k \<in> set (day_keys (store st))" and "k \<noteq> dateKey st"
  shows "store (openHistoryDay k st) = store st \<and> saved (openHistoryDay k st) = saved st
    \<and> dateKey (openHistoryDay k st) = k
    \<and> (\<forall>its w. normalizeDayItems (env st) (js_get (js_get (store st) ''days'') k) = Inr (its, w) \<longrightarrow>
         (\<exists>st'. view_history_day k st = Inr st'
            \<and> dateKey st' = k \<and> items st' = its
            \<and> js_get (js_get (store st') ''days'') k = Arr its []
            \<and> set (day_keys (store st')) = set (day_keys (store st))
            \<and> (\<forall>k' \<in> set (day_keys (store st)). k' \<noteq> k \<longrightarrow>
                  js_get (js_get (store st') ''days'') k' = js_get (js_get (store st) ''days'') k')
            \<and> saved st' = saved_after st (store st')))
    \<and> (isl (normalizeDayItems (env st) (js_get (js_get (store st) ''days'') k)) \<longrightarrow>
         view_history_day k st = Inl TypeError)
    \<and> (\<forall>xs. js_get (js_get (store st) ''days'') k = Arr xs [] \<and> (\<forall>x \<in> set xs. normalized_item x) \<longrightarrow>
         (\<exists>st'. view_history_day k st = Inr st'
            \<and> js_get (js_get (store st') ''days'') k = js_get (js_get (store st) ''days'') k))"
proof -
  let ?v = "js_get (js_get (store st) ''days'') k"
  have inv: "week_invariant st" using assms(1) by (rule reachable_week_invariant)
  then have w: "within_week (store st)" and np: "''__proto__'' \<notin> set (day_keys (store st))"
    by (simp_all add: week_invariant_def)
  note wb = write_back_existing_day [OF w np assms(2)]
  note vu = view_history_day_unfold [OF assms(2,3)]
  have ret: "\<exists>st'. view_history_day k st = Inr st'
            \<and> dateKey st' = k \<and> items st' = its
            \<and> js_get (js_get (store st') ''days'') k = Arr its []
            \<and> set (day_keys (store st')) = set (day_keys (store st))
            \<and> (\<forall>k' \<in> set (day_keys (store st)). k' \<noteq> k \<longrightarrow>
                  js_get (js_get (store st') ''days'') k' = js_get (js_get (store st) ''days'') k')
            \<and> saved st' = saved_after st (store st')"
    if n: "normalizeDayItems (env st) ?v = Inr (its, w)" for its w
  proof -
    let ?S = "st\<lparr>dateKey := k, tab := ''today'', items := its, env := w\<rparr>"
    let ?st' = "persist_effect ?S"
    have v: "view_history_day k st = Inr ?st'" by (simp add: vu n)
    have s: "store ?st' = fst (write_back k its (store st))"
      by (simp add: persist_effect_shape)
    have "saved ?st' = saved_after ?S (store ?st')"
      by (simp add: persist_effect_shape saved_set_store_saving saved_after_def)
    also have "\<dots> = saved_after st (store ?st')"
      by (rule saved_after_cong) (simp_all add: normalizeDayItems_world [OF n])
    finally have sv: "saved ?st' = saved_after st (store ?st')" .
    have f: "dateKey ?st' = k" "items ?st' = its"
      by (simp_all add: persist_effect_shape set_store_saving_def saveStore_def Let_def)
    have a: "js_get (js_get (store ?st') ''days'') k = Arr its []"
      unfolding s using wb(2) [OF assms(2)] by simp
    have b: "set (day_keys (store ?st')) = set (day_keys (store st))"
      unfolding s by (rule wb(1))
    have c: "\<forall>k' \<in> set (day_keys (store st)). k' \<noteq> k \<longrightarrow>
        js_get (js_get (store ?st') ''days'') k' = js_get (js_get (store st) ''days'') k'"
      unfolding s using wb(2) by simp
    show ?thesis
      by (rule exI [of _ ?st']) (intro conjI v f a b c sv)
  qed
  have thr: "view_history_day k st = Inl TypeError" if "isl (normalizeDayItems (env st) ?v)"
  proof -
    from that obtain e where "normalizeDayItems (env st) ?v = Inl e"
      by (cases "normalizeDayItems (env st) ?v") simp_all
    then show ?thesis by (simp add: vu error_is_TypeError [of e])
  qed
  have same: "\<exists>st'. view_history_day k st = Inr st'
      \<and> js_get (js_get (store st') ''days'') k = ?v"
    if "?v = Arr xs [] \<and> (\<forall>x \<in> set xs. normalized_item x)" for xs
  proof -
    have "normalizeDayItems (env st) ?v = Inr (xs, env st)"
      using that by (simp add: normalizeDayItems_fixed)
    from ret [OF this] show ?thesis using that by auto
  qed
  from ret have ret': "\<forall>its w. normalizeDayItems (env st) ?v = Inr (its, w) \<longrightarrow>
         (\<exists>st'. view_history_day k st = Inr st'
            \<and> dateKey st' = k \<and> items st' = its
            \<and> js_get (js_get (store st') ''days'') k = Arr its []
            \<and> set (day_keys (store st')) = set (day_keys (store st))
            \<and> (\<forall>k' \<in> set (day_keys (store st)). k' \<noteq> k \<longrightarrow>
                  js_get (js_get (store st') ''days'') k' = js_get (js_get (store st) ''days'') k')
            \<and> saved st' = saved_after st (store st'))"
    by (intro allI impI)
  from thr have thr': "isl (normalizeDayItems (env st) ?v) \<longrightarrow> view_history_day k st = Inl TypeError"
    by (intro impI)
  from same have same': "\<forall>xs. ?v = Arr xs [] \<and> (\<forall>x \<in> set xs. normalized_item x) \<longrightarrow>
         (\<exists>st'. view_history_day k st = Inr st'
            \<and> js_get (js_get (store st') ''days'') k = ?v)"
    by (intro allI impI)
  have o: "store (openHistoryDay k st) = store st" "saved (openHistoryDay k st) = saved st"
    "dateKey (openHistoryDay k st) = k"
    by (simp_all add: openHistoryDay_def)
  show ?thesis
    using o ret' thr' same' by (intro conjI)
qed

theorem viewing_history_rewrites_normalized_witness:
  "reachable (projr (mounted JSON_parse_examples (Some legacy_blob) (january_2024 1) demo_world))
   \<and> js_get (js_get (store (projr (mounted JSON_parse_examples (Some legacy_blob) (january_2024 1) demo_world)))
        ''days'') ''2023-12-31''
     = Arr [Obj [(''text'', Str ''X'')]] []
   \<and> js_get (js_get (store (projr (view_history_day ''2023-12-31''
        (projr (mounted JSON_parse_examples (Some legacy_blob) (january_2024 1) demo_world))))) ''days'')
        ''2023-12-31''
     = Arr [mk_item (Str ''rt-1e'') (Str ''X'') (Str ''morning'') (Bool False) (Num 1002) (Bool False)] []
   \<and> js_get (js_get (store (projr (view_history_day ''2023-12-31''
        (projr (mounted JSON_parse_examples (Some legacy_blob) (january_2024 1) demo_world))))) ''days'')
        ''2024-01-01''
     = Arr [] []
   \<and> length (saved (projr (view_history_day ''2023-12-31''
        (projr (mounted JSON_parse_examples (Some legacy_blob) (january_2024 1) demo_world))))) = 2"
proof -
  let ?m = "mounted JSON_parse_examples (Some legacy_blob) (january_2024 1) demo_world"
  let ?st = "projr ?m"
  let ?n = "normalizeDayItems (env ?st) (js_get (js_get (store ?st) ''days'') ''2023-12-31'')"
  have "\<not> isl ?m" by code_simp
  then have "?m = Inr ?st" by (cases ?m) simp_all
  then have r: "reachable ?st" by (rule reachable.mount)
  have ks: "day_keys (store ?st) = [''2024-01-01'', ''2023-12-31'']" by code_simp
  then have k: "''2023-12-31'' \<in> set (day_keys (store ?st))" by simp
  have d: "''2023-12-31'' \<noteq> dateKey ?st" by code_simp
  have g: "js_get (js_get (store ?st) ''days'') ''2023-12-31'' = Arr [Obj [(''text'', Str ''X'')]] []"
    by code_simp
  have g1: "js_get (js_get (store ?st) ''days'') ''2024-01-01'' = Arr [] []"
    by code_simp
  have "\<not> isl ?n" by code_simp
  then have n: "?n = Inr (fst (projr ?n), snd (projr ?n))" by (cases ?n) simp_all
  have its: "fst (projr ?n)
      = [mk_item (Str ''rt-1e'') (Str ''X'') (Str ''morning'') (Bool False) (Num 1002) (Bool False)]"
    by code_simp
  have q: "quota_ok (env ?st) (writes (env ?st))" by code_simp
  have l: "length (saved ?st) = 1" by code_simp
  from viewing_history_rewrites_normalized [OF r k d, THEN conjunct2, THEN conjunct2, THEN conjunct2,
      THEN conjunct1, rule_format, OF n]
  obtain st' where v: "view_history_day ''2023-12-31'' ?st = Inr st'"
    and a: "js_get (js_get (store st') ''days'') ''2023-12-31'' = Arr (fst (projr ?n)) []"
    and b: "\<forall>k' \<in> set (day_keys (store ?st)). k' \<noteq> ''2023-12-31'' \<longrightarrow>
        js_get (js_get (store st') ''days'') k' = js_get (js_get (store ?st) ''days'') k'"
    and c: "saved st' = saved_after ?st (store st')"
    by blast
  have "js_get (js_get (store st') ''days'') ''2024-01-01''
      = js_get (js_get (store ?st) ''days'') ''2024-01-01''"
    by (rule b [unfolded ks, rule_format]) simp_all
  then have b1: "js_get (js_get (store st') ''days'') ''2024-01-01'' = Arr [] []"
    by (simp only: g1)
  have c1: "length (saved st') = 2" unfolding c using q l by (simp add: saved_after_def)
  show ?thesis
    using r g a b1 c1 unfolding v its by (simp only: sum.sel simp_thms)
qed

text \<open>After the migration of the legacy blob, opening the day 2023-12-31 replaces its
  stored record, the single raw item with the text X, by an item with a generated id, the
  bucket morning and a time stamp, and writes the document to storage once more.\<close>

theorem viewing_history_counterexample:
  "js_get (js_get (store (projr (mounted JSON_parse_examples (Some legacy_blob) (january_2024 1) demo_world)))
        ''days'') ''2023-12-31''
     = Arr [Obj [(''text'', Str ''X'')]] []
   \<and> \<not> isl (view_history_day ''2023-12-31''
        (projr (mounted JSON_parse_examples (Some legacy_blob) (january_2024 1) demo_world)))
   \<and> saved (projr (view_history_day ''2023-12-31''
        (projr (mounted JSON_parse_examples (Some legacy_blob) (january_2024 1) demo_world))))
     =     [Obj [(''version'', Num 2),
                 (''templates'', Obj [(''morning'', Arr [] []), (''noon'', Arr [] []), (''evening'', Arr [] [])]),
                 (''days'', Obj [(''2024-01-01'', Arr [] []),
                    (''2023-12-31'', Arr [mk_item (Str ''rt-1e'') (Str ''X'') (Str ''morning'')
                                            (Bool False) (Num 1002) (Bool False)] [])])],
            Obj [(''version'', Num 2),
                 (''templates'', Obj [(''morning'', Arr [] []), (''noon'', Arr [] []), (''evening'', Arr [] [])]),
                 (''days'', Obj [(''2024-01-01'', Arr [] []),
                    (''2023-12-31'', Arr [Obj [(''text'', Str ''X'')]] [])])]]"
  by code_simp

end
